theory Spec2Isabelle
  imports Main "HOL-Library.AList"
begin

section \<open>Python values, errors and dictionary primitives\<close>

text \<open>
  The client builds JSON-like structures. A Python dictionary is an association list
  with string keys in insertion order; \<open>AList.update\<close> overwrites a key in place and
  appends a new one, as assignment to a Python dict does. Tuples and lists are kept
  apart because the filter parser tests \<^verbatim>\<open>type(val) == list\<close>.
\<close>

datatype py_error =
  KeyError | ValueError | TypeError | AttributeError | AssertionError | IndexError
  | PyException | BackendError string

datatype pyval =
  PNone | PBool bool | PInt int | PStr string
  | PList "pyval list" | PTuple "pyval list" | PDict "(string \<times> pyval) list"

type_synonym pydict = "(string \<times> pyval) list"

definition bind_err :: "'e + 'a \<Rightarrow> ('a \<Rightarrow> 'e + 'b) \<Rightarrow> 'e + 'b" where
  "bind_err m f = (case m of Inl e \<Rightarrow> Inl e | Inr x \<Rightarrow> f x)"

text \<open>\<^verbatim>\<open>d[k]\<close>: KeyError on a missing key, TypeError on a value that is no mapping.\<close>

definition py_getitem :: "pyval \<Rightarrow> string \<Rightarrow> py_error + pyval" where
  "py_getitem d k =
     (case d of
        PDict kvs \<Rightarrow> (case map_of kvs k of None \<Rightarrow> Inl KeyError | Some v \<Rightarrow> Inr v)
      | _ \<Rightarrow> Inl TypeError)"

text \<open>\<^verbatim>\<open>d.get(k)\<close>: None on a missing key, AttributeError on a value without \<^verbatim>\<open>get\<close>.\<close>

definition py_get :: "pyval \<Rightarrow> string \<Rightarrow> py_error + pyval" where
  "py_get d k =
     (case d of
        PDict kvs \<Rightarrow> (case map_of kvs k of None \<Rightarrow> Inr PNone | Some v \<Rightarrow> Inr v)
      | _ \<Rightarrow> Inl AttributeError)"

text \<open>\<^verbatim>\<open>d[k] = v\<close> with a string key.\<close>

definition py_setitem :: "pyval \<Rightarrow> string \<Rightarrow> pyval \<Rightarrow> py_error + pyval" where
  "py_setitem d k v =
     (case d of PDict kvs \<Rightarrow> Inr (PDict (AList.update k v kvs)) | _ \<Rightarrow> Inl TypeError)"

definition dict_merge :: "pydict \<Rightarrow> pydict \<Rightarrow> pydict" where
  "dict_merge kvs xs = fold (\<lambda>(k, v). AList.update k v) xs kvs"

text \<open>
  \<^verbatim>\<open>d.update(x)\<close>. The builder's callers pass mappings; an argument that is no mapping is
  rejected with TypeError, and a receiver without \<^verbatim>\<open>update\<close> with AttributeError.
\<close>

definition py_update :: "pyval \<Rightarrow> pyval \<Rightarrow> py_error + pyval" where
  "py_update d x =
     (case d of
        PDict kvs \<Rightarrow> (case x of PDict xs \<Rightarrow> Inr (PDict (dict_merge kvs xs)) | _ \<Rightarrow> Inl TypeError)
      | _ \<Rightarrow> Inl AttributeError)"

fun is_list :: "pyval \<Rightarrow> bool" where
  "is_list (PList xs) = True"
| "is_list v = False"

text \<open>
  \<^verbatim>\<open>key.split("__")\<close>: the separator is searched from the left, matches do not overlap,
  and the pieces between matches are returned (one piece when there is no match).
\<close>

fun py_split :: "string \<Rightarrow> string list" where
  "py_split [] = [[]]"
| "py_split [c] = [[c]]"
| "py_split (c # d # cs) =
     (if c = CHR ''_'' \<and> d = CHR ''_'' then [] # py_split cs
      else (case py_split (d # cs) of
              [] \<Rightarrow> [[c]]
            | x # xs \<Rightarrow> (c # x) # xs))"


section \<open>Backend payloads\<close>

text \<open>
  One hit of a search response: the keys \<^verbatim>\<open>_type\<close>, \<^verbatim>\<open>_id\<close>, \<^verbatim>\<open>_score\<close>, and the
  optional payloads \<^verbatim>\<open>fields\<close> and \<^verbatim>\<open>_source\<close> (\<open>PNone\<close> when the key is absent).
\<close>

record hit =
  h_type :: pyval
  h_id :: pyval
  h_score :: pyval
  h_fields :: pyval
  h_source :: pyval

text \<open>
  A search response: \<^verbatim>\<open>results['hits']['hits']\<close>, \<^verbatim>\<open>results['hits']['total']\<close>,
  \<^verbatim>\<open>results.get('facets', {})\<close> as field to (term, count) buckets, and
  \<^verbatim>\<open>results.get('suggest', None)\<close> as field to (text, option texts) entries.
\<close>

record es_response =
  r_hits :: "hit list"
  r_total :: int
  r_facets :: "(string \<times> (pyval \<times> pyval) list) list"
  r_suggest :: "(string \<times> (string \<times> string list) list) list option"


section \<open>The query builder (class Query)\<close>

text \<open>
  A facet request \<^verbatim>\<open>{"terms": {...}}\<close>, with \<^verbatim>\<open>"facet_filter": {"and": [...]}\<close> once a
  facet filter has been attached.
\<close>

record facet =
  f_terms :: pydict
  f_filter :: "pyval list option"

text \<open>
  The fields of \<^verbatim>\<open>Query.__init__\<close>. Fields only the builder assigns carry their shape:
  \<open>filter_and_terms = Some xs\<close> stands for \<^verbatim>\<open>{"must": xs}\<close>, \<open>filter_or_terms = Some xs\<close>
  for \<^verbatim>\<open>{"should": xs}\<close>, \<open>None\<close> for Python's None. Fields the caller supplies are
  \<open>pyval\<close>s, \<open>PNone\<close> being None. The last four fields are \<^verbatim>\<open>_results\<close>,
  \<^verbatim>\<open>_hit_count\<close>, \<^verbatim>\<open>_facet_counts\<close> and \<^verbatim>\<open>_suggestions\<close>.
\<close>

record query =
  index_q :: string
  doc_type_q :: pyval
  search_terms :: "pyval option"
  filter_and_terms :: "pyval list option"
  filter_or_terms :: "pyval list option"
  params :: pydict
  function_score :: pyval
  facets :: "(string \<times> facet) list option"
  sort_q :: "pyval list option"
  raw_query :: pyval
  raw_params :: pyval
  offset :: int
  size_q :: int
  mlt_query :: bool
  mlt_doc :: pyval
  mlt_fields :: pyval
  mlt_options :: pydict
  results_c :: "hit list option"
  hit_count :: "int option"
  facet_counts_c :: "(string \<times> (pyval \<times> pyval) list) list option"
  suggestions_c :: "(string \<times> string option) list option"

definition Query_init :: "string \<Rightarrow> pyval \<Rightarrow> query" where
  "Query_init idx dt =
     \<lparr> index_q = idx, doc_type_q = dt, search_terms = None, filter_and_terms = None,
       filter_or_terms = None, params = [], function_score = PNone, facets = None,
       sort_q = None, raw_query = PNone, raw_params = PNone, offset = 0, size_q = 20,
       mlt_query = False, mlt_doc = PNone, mlt_fields = PList [], mlt_options = [],
       results_c = None, hit_count = None, facet_counts_c = None, suggestions_c = None \<rparr>"

text \<open>
  \<^verbatim>\<open>key, operator = key.split("__") if len(key.split("__")) > 1 else [key, None]\<close>:
  unpacking more than two pieces raises ValueError.
\<close>

definition split_key :: "string \<Rightarrow> py_error + string \<times> string option" where
  "split_key key =
     (let parts = py_split key in
      if length parts > 1 then
        (case parts of [k, operator] \<Rightarrow> Inr (k, Some operator) | _ \<Rightarrow> Inl ValueError)
      else Inr (key, None))"

text \<open>The body of the loop shared by \<^verbatim>\<open>add_filter_and\<close> and \<^verbatim>\<open>add_filter_or\<close>.\<close>

definition filter_query :: "string \<Rightarrow> pyval \<Rightarrow> py_error + pyval" where
  "filter_query key val =
     (if key = ''ids'' then Inr (PDict [(''ids'', PDict [(''values'', val)])])
      else
        (case split_key key of
           Inl e \<Rightarrow> Inl e
         | Inr (k, operator) \<Rightarrow>
             if operator \<in> {Some ''gt'', Some ''gte'', Some ''lt'', Some ''lte''} then
               Inr (PDict [(''range'', PDict [(k, PDict [(the operator, val)])])])
             else
               (let filter_type =
                      (if operator = Some ''in'' \<or> is_list val then ''terms'' else ''term'')
                in Inr (PDict [(filter_type, PDict [(k, val)])]))))"

text \<open>
  \<^verbatim>\<open>for key, val in kwargs.items(): ...; terms.append(filter_query)\<close>. An exception leaves
  the filters appended so far in place, so the loop returns the error with the list.
\<close>

fun filter_loop :: "pydict \<Rightarrow> pyval list \<Rightarrow> py_error option \<times> pyval list" where
  "filter_loop [] terms = (None, terms)"
| "filter_loop ((key, val) # kwargs) terms =
     (case filter_query key val of
        Inl e \<Rightarrow> (Some e, terms)
      | Inr fq \<Rightarrow> filter_loop kwargs (terms @ [fq]))"

definition Query_add_filter_and :: "pydict \<Rightarrow> query \<Rightarrow> py_error option \<times> query" where
  "Query_add_filter_and kwargs q =
     (let must = (case filter_and_terms q of None \<Rightarrow> [] | Some xs \<Rightarrow> xs);
          (err, must') = filter_loop kwargs must
      in (err, q\<lparr>filter_and_terms := Some must'\<rparr>))"

definition Query_add_filter_or :: "pydict \<Rightarrow> query \<Rightarrow> py_error option \<times> query" where
  "Query_add_filter_or kwargs q =
     (let should = (case filter_or_terms q of None \<Rightarrow> [] | Some xs \<Rightarrow> xs);
          (err, should') = filter_loop kwargs should
      in (err, q\<lparr>filter_or_terms := Some should'\<rparr>))"

definition Query_add_search_query :: "pyval \<Rightarrow> pyval \<Rightarrow> query \<Rightarrow> query" where
  "Query_add_search_query content search_fields q =
     q\<lparr>search_terms := Some
         (if search_fields \<noteq> PNone then
            PDict [(''multi_match'',
                    PDict [(''query'', content), (''fields'', search_fields),
                           (''lenient'', PBool True)])]
          else PDict [(''match'', PDict [(''_all'', content)])])\<rparr>"

definition Query_add_fields :: "pyval \<Rightarrow> query \<Rightarrow> query" where
  "Query_add_fields flds q = q\<lparr>params := AList.update ''fields'' flds (params q)\<rparr>"

definition Query_add_suggestion :: "pyval \<Rightarrow> pyval \<Rightarrow> pyval \<Rightarrow> pyval \<Rightarrow> query \<Rightarrow> query" where
  "Query_add_suggestion suggest_text suggest_field suggest_mode suggest_size q =
     q\<lparr>params :=
         AList.update ''suggest_size'' suggest_size
           (AList.update ''suggest_mode'' suggest_mode
             (AList.update ''suggest_field'' suggest_field
               (AList.update ''suggest_text'' suggest_text (params q))))\<rparr>"

definition Query_add_term_facet :: "string \<Rightarrow> pydict \<Rightarrow> query \<Rightarrow> query" where
  "Query_add_term_facet field kwargs q =
     (let fc = \<lparr> f_terms = dict_merge [(''field'', PStr field)] kwargs, f_filter = None \<rparr>
      in q\<lparr>facets := Some (case facets q of
                              None \<Rightarrow> [(field, fc)]
                            | Some fs \<Rightarrow> AList.update field fc fs)\<rparr>)"

text \<open>
  The loop of \<^verbatim>\<open>add_term_facet_filter\<close>: it has neither the \<^verbatim>\<open>ids\<close> case nor the range
  case, and appends to \<^verbatim>\<open>facet.setdefault("facet_filter", {"and": []})['and']\<close>.
\<close>

fun facet_filter_loop :: "pydict \<Rightarrow> facet \<Rightarrow> py_error option \<times> facet" where
  "facet_filter_loop [] fc = (None, fc)"
| "facet_filter_loop ((key, val) # kwargs) fc =
     (case split_key key of
        Inl e \<Rightarrow> (Some e, fc)
      | Inr (field, operator) \<Rightarrow>
          (let filter_type =
                 (if operator = Some ''in'' \<or> is_list val then ''terms'' else ''term'');
               ands = (case f_filter fc of None \<Rightarrow> [] | Some xs \<Rightarrow> xs)
           in facet_filter_loop kwargs
                (fc\<lparr>f_filter := Some (ands @ [PDict [(filter_type, PDict [(field, val)])]])\<rparr>)))"

definition Query_add_term_facet_filter ::
  "string \<Rightarrow> pydict \<Rightarrow> query \<Rightarrow> py_error option \<times> query" where
  "Query_add_term_facet_filter field flt q =
     (let q1 = (if facets q = None \<or> map_of (the (facets q)) field = None
                then Query_add_term_facet field [] q else q);
          fs = the (facets q1);
          (err, fc) = facet_filter_loop flt (the (map_of fs field))
      in (err, q1\<lparr>facets := Some (AList.update field fc fs)\<rparr>))"

definition Query_add_function_score :: "pyval \<Rightarrow> query \<Rightarrow> query" where
  "Query_add_function_score fs q = q\<lparr>function_score := fs\<rparr>"

text \<open>
  \<^verbatim>\<open>add_sort\<close>: \<^verbatim>\<open>field.startswith("-")\<close> needs a string; the new list is assigned only
  after the loop, so an error leaves the query as it was.
\<close>

fun sort_loop :: "pyval list \<Rightarrow> py_error + pyval list" where
  "sort_loop [] = Inr []"
| "sort_loop (PStr field # args) =
     bind_err (sort_loop args) (\<lambda>rest.
       Inr ((case field of
               c # cs \<Rightarrow> if c = CHR ''-'' then PDict [(cs, PStr ''desc'')] else PStr field
             | [] \<Rightarrow> PStr field) # rest))"
| "sort_loop (v # args) = Inl AttributeError"

definition Query_add_sort :: "pyval list \<Rightarrow> query \<Rightarrow> py_error option \<times> query" where
  "Query_add_sort args q =
     (case sort_loop args of
        Inl e \<Rightarrow> (Some e, q)
      | Inr s \<Rightarrow> (None, q\<lparr>sort_q := Some s\<rparr>))"

definition Query_add_raw_query :: "pyval \<Rightarrow> query \<Rightarrow> query" where
  "Query_add_raw_query rq q = q\<lparr>raw_query := rq\<rparr>"

definition Query_add_raw_params :: "pyval \<Rightarrow> query \<Rightarrow> query" where
  "Query_add_raw_params ps q = q\<lparr>raw_params := ps\<rparr>"

definition Query_mlt :: "pyval \<Rightarrow> pyval \<Rightarrow> pydict \<Rightarrow> query \<Rightarrow> query" where
  "Query_mlt docid flds kwargs q =
     q\<lparr>mlt_query := True, mlt_doc := docid, mlt_fields := flds, mlt_options := kwargs\<rparr>"

definition render_facet :: "facet \<Rightarrow> pyval" where
  "render_facet fc =
     PDict ((''terms'', PDict (f_terms fc)) #
            (case f_filter fc of
               None \<Rightarrow> []
             | Some ands \<Rightarrow> [(''facet_filter'', PDict [(''and'', PList ands)])]))"

text \<open>
  \<^verbatim>\<open>build_query\<close>, statement by statement. In the function-score branch the literal has
  the single key \<^verbatim>\<open>function_score\<close> and the next statement reads \<^verbatim>\<open>query['query']\<close>.
\<close>

definition Query_build_query :: "query \<Rightarrow> py_error + pyval" where
  "Query_build_query q =
     (if raw_query q \<noteq> PNone then Inr (raw_query q)
      else
        bind_err
          (if function_score q \<noteq> PNone then
             (let query = PDict [(''function_score'',
                                  PDict [(''query'', PDict [(''match_all'', PDict [])])])]
              in bind_err (py_getitem query ''query'') (\<lambda>a.
                 bind_err (py_getitem a ''function_score'') (\<lambda>b.
                 bind_err (py_update b (function_score q)) (\<lambda>b'.
                 bind_err (py_getitem b' ''query'') (\<lambda>c.
                 py_getitem c ''filtered'')))))
           else Inr (PDict [(''query'', PDict [(''match_all'', PDict [])])]))
          (\<lambda>query0.
        bind_err
          (case search_terms q of
             None \<Rightarrow> Inr query0
           | Some st \<Rightarrow> py_setitem query0 ''query'' st)
          (\<lambda>query1.
        let bool1 = (case filter_and_terms q of
                       None \<Rightarrow> []
                     | Some must \<Rightarrow> dict_merge [] [(''must'', PList must)]);
            bool2 = (case filter_or_terms q of
                       None \<Rightarrow> bool1
                     | Some should \<Rightarrow> dict_merge bool1 [(''should'', PList should)])
        in
        bind_err
          (if filter_and_terms q \<noteq> None \<or> filter_or_terms q \<noteq> None then
             py_update query1 (PDict [(''filter'', PDict [(''bool'', PDict bool2)])])
           else Inr query1)
          (\<lambda>query2.
        bind_err
          (case facets q of
             None \<Rightarrow> Inr query2
           | Some fs \<Rightarrow>
               py_update query2
                 (PDict [(''facets'',
                          PDict (dict_merge [] (map (\<lambda>(f, fc). (f, render_facet fc)) fs)))]))
          (\<lambda>query3.
        bind_err
          (case sort_q q of
             None \<Rightarrow> Inr query3
           | Some s \<Rightarrow> py_setitem query3 ''sort'' (PList s))
          (\<lambda>query4.
        if raw_params q \<noteq> PNone then py_update query4 (raw_params q)
        else Inr query4))))))"

text \<open>\<^verbatim>\<open>_reset\<close>: only the four cached execution results are cleared.\<close>

definition Query_reset :: "query \<Rightarrow> query" where
  "Query_reset q =
     q\<lparr>results_c := None, hit_count := None, facet_counts_c := None, suggestions_c := None\<rparr>"

text \<open>
  A field name that contains no \<^verbatim>\<open>__\<close> and does not end in an underscore: appending
  \<^verbatim>\<open>__operator\<close> to it gives a key that splits back into the field and the operator.
\<close>

definition plain_field :: "string \<Rightarrow> bool" where
  "plain_field field \<longleftrightarrow>
     py_split field = [field] \<and> (field = [] \<or> last field \<noteq> CHR ''_'')"


section \<open>The backend and the execution of a query\<close>

text \<open>
  The backend is the external search client. Every request the code sends is recorded in
  the order it is sent, and the reply may depend on the request and on how many requests
  came before it; a reply is a value or an exception.
  \<open>SearchCall\<close> is \<^verbatim>\<open>backend.search(index, doc_type, body, **params)\<close>, \<open>MltCall\<close> is
  \<^verbatim>\<open>backend.mlt(index, doc_type, id, mlt_fields, body, **mlt_options)\<close>, \<open>GetCall\<close> is
  \<^verbatim>\<open>backend.get(index, id, doc_type[, fields])\<close> and \<open>DeleteCall\<close> is
  \<^verbatim>\<open>backend.delete(index, doc_type, id)\<close>.
\<close>

datatype call =
  SearchCall string pyval pyval pydict
  | MltCall string pyval pyval pyval pyval pydict
  | GetCall string pyval pyval pyval
  | DeleteCall string pyval pyval

record backend =
  bk_search :: "nat \<Rightarrow> call \<Rightarrow> py_error + es_response"
  bk_mlt :: "nat \<Rightarrow> call \<Rightarrow> py_error + es_response"
  bk_get :: "nat \<Rightarrow> call \<Rightarrow> py_error + pyval"
  bk_delete :: "nat \<Rightarrow> call \<Rightarrow> py_error + pyval"

text \<open>The settings module \<^verbatim>\<open>conf\<close> is not part of the sources; its constants are parameters.\<close>

record conf =
  SIZE_PER_QUERY :: int
  DEFAULT_FILTER :: string

definition process_facets ::
  "(string \<times> (pyval \<times> pyval) list) list \<Rightarrow> (string \<times> (pyval \<times> pyval) list) list" where
  "process_facets facet_result =
     fold (\<lambda>(facet_field, terms). AList.update facet_field (map (\<lambda>(t, c). (t, c)) terms))
       facet_result []"

definition process_suggestions ::
  "query \<Rightarrow> (string \<times> (string \<times> string list) list) list option \<Rightarrow>
   py_error + (string \<times> string option) list option" where
  "process_suggestions q suggestion_result =
     (case suggestion_result of
        None \<Rightarrow> Inr None
      | Some sr \<Rightarrow>
          bind_err
            (case map_of (params q) ''suggest_field'' of
               None \<Rightarrow> Inl KeyError
             | Some (PStr fld) \<Rightarrow>
                 (case map_of sr fld of None \<Rightarrow> Inl KeyError | Some raw \<Rightarrow> Inr raw)
             | Some (PList xs) \<Rightarrow> Inl TypeError
             | Some (PDict kvs) \<Rightarrow> Inl TypeError
             | Some v \<Rightarrow> Inl KeyError)
            (\<lambda>raw_suggestions.
               Inr (Some (fold (\<lambda>(text, options).
                                   AList.update text
                                     (case options of [] \<Rightarrow> None | opt # rest \<Rightarrow> Some opt))
                            raw_suggestions []))))"

text \<open>
  The tail shared by \<^verbatim>\<open>run\<close> and \<^verbatim>\<open>run_mlt\<close>: the four assignments from the response.
  \<^verbatim>\<open>process_suggestions\<close> can raise after the first three are made.
\<close>

definition store_results :: "es_response \<Rightarrow> query \<Rightarrow> (py_error + unit) \<times> query" where
  "store_results results q =
     (let q1 = q\<lparr>results_c := Some (r_hits results), hit_count := Some (r_total results),
                 facet_counts_c := Some (process_facets (r_facets results))\<rparr>
      in case process_suggestions q1 (r_suggest results) of
           Inl e \<Rightarrow> (Inl e, q1)
         | Inr sg \<Rightarrow> (Inr (), q1\<lparr>suggestions_c := sg\<rparr>))"

definition Query_run ::
  "backend \<Rightarrow> query \<Rightarrow> call list \<Rightarrow> (py_error + unit) \<times> query \<times> call list" where
  "Query_run bk q cs =
     (case Query_build_query q of
        Inl e \<Rightarrow> (Inl e, q, cs)
      | Inr final_query \<Rightarrow>
          (let q1 = q\<lparr>params := AList.update ''size'' (PInt (size_q q))
                                  (AList.update ''from_'' (PInt (offset q)) (params q))\<rparr>;
               c = SearchCall (index_q q1) (doc_type_q q1) final_query (params q1)
           in case bk_search bk (length cs) c of
                Inl e \<Rightarrow> (Inl e, q1, cs @ [c])
              | Inr results \<Rightarrow>
                  (let (r, q2) = store_results results q1 in (r, q2, cs @ [c]))))"

text \<open>
  \<^verbatim>\<open>run_mlt\<close>: the option bag is written first, the body is rendered as an argument of
  the call, and an option named like one of the call's own keywords makes the call itself
  fail with TypeError before anything is sent.
\<close>

definition Query_run_mlt ::
  "backend \<Rightarrow> query \<Rightarrow> call list \<Rightarrow> (py_error + unit) \<times> query \<times> call list" where
  "Query_run_mlt bk q cs =
     (let q1 = q\<lparr>mlt_options := AList.update ''search_size'' (PInt (size_q q))
                                    (AList.update ''search_from'' (PInt (offset q))
                                       (mlt_options q))\<rparr>
      in case Query_build_query q1 of
           Inl e \<Rightarrow> (Inl e, q1, cs)
         | Inr body \<Rightarrow>
             if \<exists>k \<in> fst ` set (mlt_options q1).
                  k \<in> {''index'', ''doc_type'', ''id'', ''mlt_fields'', ''body''}
             then (Inl TypeError, q1, cs)
             else
               (let c = MltCall (index_q q1) (doc_type_q q1) (mlt_doc q1) (mlt_fields q1) body
                          (mlt_options q1)
                in case bk_mlt bk (length cs) c of
                     Inl e \<Rightarrow> (Inl e, q1, cs @ [c])
                   | Inr results \<Rightarrow>
                       (let (r, q2) = store_results results q1 in (r, q2, cs @ [c]))))"

definition Query_set_limits :: "int option \<Rightarrow> int option \<Rightarrow> query \<Rightarrow> py_error + query" where
  "Query_set_limits start bound q =
     (let q1 = (case start of None \<Rightarrow> q | Some a \<Rightarrow> q\<lparr>offset := a\<rparr>)
      in case bound of
           None \<Rightarrow> Inr q1
         | Some b \<Rightarrow>
             (case start of
                None \<Rightarrow> Inl TypeError
              | Some a \<Rightarrow> Inr (q1\<lparr>size_q := b - a\<rparr>)))"

definition Query_get_results ::
  "backend \<Rightarrow> query \<Rightarrow> call list \<Rightarrow> (py_error + hit list option) \<times> query \<times> call list" where
  "Query_get_results bk q cs =
     (if results_c q = None then
        (case (if mlt_query q then Query_run_mlt bk q cs else Query_run bk q cs) of
           (Inl e, q1, cs1) \<Rightarrow> (Inl e, q1, cs1)
         | (Inr u, q1, cs1) \<Rightarrow> (Inr (results_c q1), q1, cs1))
      else (Inr (results_c q), q, cs))"

definition Query_get_count ::
  "backend \<Rightarrow> query \<Rightarrow> call list \<Rightarrow> (py_error + int option) \<times> query \<times> call list" where
  "Query_get_count bk q cs =
     (if hit_count q = None then
        (case (if mlt_query q then Query_run_mlt bk q cs else Query_run bk q cs) of
           (Inl e, q1, cs1) \<Rightarrow> (Inl e, q1, cs1)
         | (Inr u, q1, cs1) \<Rightarrow> (Inr (hit_count q1), q1, cs1))
      else (Inr (hit_count q), q, cs))"

definition Query_get_facet_counts ::
  "backend \<Rightarrow> query \<Rightarrow> call list \<Rightarrow>
   (py_error + (string \<times> (pyval \<times> pyval) list) list option) \<times> query \<times> call list" where
  "Query_get_facet_counts bk q cs =
     (if facet_counts_c q = None then
        (case Query_run bk q cs of
           (Inl e, q1, cs1) \<Rightarrow> (Inl e, q1, cs1)
         | (Inr u, q1, cs1) \<Rightarrow> (Inr (facet_counts_c q1), q1, cs1))
      else (Inr (facet_counts_c q), q, cs))"

definition Query_get_suggestions ::
  "backend \<Rightarrow> query \<Rightarrow> call list \<Rightarrow>
   (py_error + (string \<times> string option) list option) \<times> query \<times> call list" where
  "Query_get_suggestions bk q cs =
     (if suggestions_c q = None then
        (case Query_run bk q cs of
           (Inl e, q1, cs1) \<Rightarrow> (Inl e, q1, cs1)
         | (Inr u, q1, cs1) \<Rightarrow> (Inr (suggestions_c q1), q1, cs1))
      else (Inr (suggestions_c q), q, cs))"

definition Query_has_run :: "query \<Rightarrow> bool" where
  "Query_has_run q \<longleftrightarrow> results_c q \<noteq> None \<and> hit_count q \<noteq> None"


section \<open>Result records and the result set (classes SearchResult and SQS)\<close>

record search_result =
  sr_index_name :: string
  sr_doc_type :: pyval
  sr_pk :: pyval
  sr_score :: pyval
  sr_attrs :: pydict

text \<open>What a cache slot or a lookup holds: a plain value (None, a mapping) or a SearchResult.\<close>

datatype pyobj = Val pyval | Obj search_result

text \<open>
  \<^verbatim>\<open>SearchResult.__init__\<close>: \<^verbatim>\<open>body.items()\<close> needs a mapping; a key already in
  \<^verbatim>\<open>__dict__\<close> (the four identity fields, or a key set before) is skipped.
\<close>

definition SearchResult_init ::
  "string \<Rightarrow> pyval \<Rightarrow> pyval \<Rightarrow> pyval \<Rightarrow> pyval \<Rightarrow> py_error + search_result" where
  "SearchResult_init idx dt pk score body =
     (case body of
        PDict kvs \<Rightarrow>
          Inr \<lparr> sr_index_name = idx, sr_doc_type = dt, sr_pk = pk, sr_score = score,
                sr_attrs =
                  fold (\<lambda>(key, val) attrs.
                          if key \<in> {''index_name'', ''doc_type'', ''pk'', ''score''}
                             \<or> key \<in> fst ` set attrs
                          then attrs else attrs @ [(key, val)])
                    kvs [] \<rparr>
      | _ \<Rightarrow> Inl AttributeError)"

fun truthy :: "pyval \<Rightarrow> bool" where
  "truthy PNone = False"
| "truthy (PBool b) = b"
| "truthy (PInt i) = (i \<noteq> 0)"
| "truthy (PStr s) = (s \<noteq> [])"
| "truthy (PList xs) = (xs \<noteq> [])"
| "truthy (PTuple xs) = (xs \<noteq> [])"
| "truthy (PDict kvs) = (kvs \<noteq> [])"

text \<open>
  The fields of \<^verbatim>\<open>SQS.__init__\<close>. \<open>query_ref\<close> is the reference to the Query object: the
  object itself lives in the store, so that two result sets can hold the same one.
  \<open>result_cache\<close> is \<^verbatim>\<open>_result_cache\<close>, with \<open>Val PNone\<close> for an unfilled slot, and
  \<open>result_count\<close> is \<^verbatim>\<open>_result_count\<close>.
\<close>

record sqs =
  index_name :: string
  doc_type :: pyval
  process_results :: bool
  query_ref :: nat
  result_cache :: "pyobj list"
  result_count :: "int option"

record world =
  heap :: "nat \<Rightarrow> query"
  next_ref :: nat
  calls :: "call list"

text \<open>\<^verbatim>\<open>SQS.__init__\<close>: a Query is created only when none is passed.\<close>

definition SQS_init :: "string \<Rightarrow> pyval \<Rightarrow> nat option \<Rightarrow> bool \<Rightarrow> world \<Rightarrow> sqs \<times> world" where
  "SQS_init idx dt qr pr w =
     (case qr of
        Some r \<Rightarrow>
          (\<lparr> index_name = idx, doc_type = dt, process_results = pr, query_ref = r,
              result_cache = [], result_count = None \<rparr>, w)
      | None \<Rightarrow>
          (\<lparr> index_name = idx, doc_type = dt, process_results = pr, query_ref = next_ref w,
              result_cache = [], result_count = None \<rparr>,
           w\<lparr>heap := (heap w)(next_ref w := Query_init idx dt), next_ref := Suc (next_ref w)\<rparr>))"

text \<open>One step of the loop of \<^verbatim>\<open>post_process_results\<close>.\<close>

definition convert_result :: "sqs \<Rightarrow> hit \<Rightarrow> py_error + pyobj" where
  "convert_result s result =
     (let body = (if truthy (h_fields result) then h_fields result else h_source result)
      in if process_results s then
           (case SearchResult_init (index_name s) (h_type result) (h_id result) (h_score result) body of
              Inl e \<Rightarrow> Inl e
            | Inr r \<Rightarrow> Inr (Obj r))
         else
           (case body of
              PDict kvs \<Rightarrow> Inr (Val (PDict (AList.update ''doc_type'' (h_type result) kvs)))
            | PList xs \<Rightarrow> Inl TypeError
            | _ \<Rightarrow> Inl AttributeError))"

fun post_process_results :: "sqs \<Rightarrow> hit list \<Rightarrow> py_error + pyobj list" where
  "post_process_results s [] = Inr []"
| "post_process_results s (result # results) =
     (case convert_result s result of
        Inl e \<Rightarrow> Inl e
      | Inr x \<Rightarrow>
          (case post_process_results s results of
             Inl e \<Rightarrow> Inl e
           | Inr xs \<Rightarrow> Inr (x # xs)))"

text \<open>
  Python slices over a list of length \<open>n\<close>: a negative bound counts from the end, and
  both bounds are clamped to \<open>[0, n]\<close>. Reading \<^verbatim>\<open>xs[a:b]\<close> and assigning
  \<^verbatim>\<open>xs[a:b] = ys\<close> (which may change the length of the list).
\<close>

definition slice_index :: "nat \<Rightarrow> int \<Rightarrow> nat" where
  "slice_index n i = (if i < 0 then nat (max 0 (int n + i)) else min n (nat i))"

definition py_slice :: "'a list \<Rightarrow> int \<Rightarrow> int \<Rightarrow> 'a list" where
  "py_slice xs a b =
     (let lo = slice_index (length xs) a; hi = slice_index (length xs) b
      in take (hi - lo) (drop lo xs))"

definition py_slice_assign :: "'a list \<Rightarrow> int \<Rightarrow> int \<Rightarrow> 'a list \<Rightarrow> 'a list" where
  "py_slice_assign xs a b ys =
     (let lo = slice_index (length xs) a; hi = max lo (slice_index (length xs) b)
      in take lo xs @ ys @ drop hi xs)"

text \<open>\<^verbatim>\<open>__len__\<close>; Python's \<^verbatim>\<open>len\<close> rejects a value that is no integer or is negative.\<close>

definition SQS_len :: "backend \<Rightarrow> sqs \<Rightarrow> world \<Rightarrow> (py_error + int) \<times> sqs \<times> world" where
  "SQS_len bk s w =
     (case (if result_count s = None then
              (case Query_get_count bk (heap w (query_ref s)) (calls w) of
                 (Inl e, q1, cs1) \<Rightarrow>
                   (Inl e, s, w\<lparr>heap := (heap w)(query_ref s := q1), calls := cs1\<rparr>)
               | (Inr n, q1, cs1) \<Rightarrow>
                   (Inr n, s\<lparr>result_count := n\<rparr>,
                    w\<lparr>heap := (heap w)(query_ref s := q1), calls := cs1\<rparr>))
            else (Inr (result_count s), s, w)) of
        (Inl e, s1, w1) \<Rightarrow> (Inl e, s1, w1)
      | (Inr None, s1, w1) \<Rightarrow> (Inl TypeError, s1, w1)
      | (Inr (Some n), s1, w1) \<Rightarrow> (if n < 0 then Inl ValueError else Inr n, s1, w1))"

definition SQS_cache_is_full ::
  "backend \<Rightarrow> sqs \<Rightarrow> world \<Rightarrow> (py_error + bool) \<times> sqs \<times> world" where
  "SQS_cache_is_full bk s w =
     (if \<not> Query_has_run (heap w (query_ref s)) then (Inr False, s, w)
      else
        (case SQS_len bk s w of
           (Inl e, s1, w1) \<Rightarrow> (Inl e, s1, w1)
         | (Inr n, s1, w1) \<Rightarrow>
             if n \<le> 0 then (Inr True, s1, w1)
             else if Val PNone \<in> set (result_cache s1) then (Inr False, s1, w1)
             else (Inr (length (result_cache s1) > 0), s1, w1)))"

text \<open>
  \<^verbatim>\<open>_fill_cache(start, end)\<close>: reset the execution state, set the window, fetch; no hits
  means False. Otherwise the cache is allocated on first use with one unfilled slot per
  hit of the total count, and the converted hits are assigned by slice at \<open>start\<close>.
\<close>

definition SQS_fill_cache ::
  "backend \<Rightarrow> int option \<Rightarrow> int option \<Rightarrow> sqs \<Rightarrow> world \<Rightarrow> (py_error + bool) \<times> sqs \<times> world" where
  "SQS_fill_cache bk start endpos s w =
     (let r = query_ref s;
          q1 = Query_reset (heap w r)
      in case Query_set_limits start endpos q1 of
           Inl e \<Rightarrow> (Inl e, s, w\<lparr>heap := (heap w)(r := q1)\<rparr>)
         | Inr q2 \<Rightarrow>
             (case Query_get_results bk q2 (calls w) of
                (Inl e, q3, cs3) \<Rightarrow> (Inl e, s, w\<lparr>heap := (heap w)(r := q3), calls := cs3\<rparr>)
              | (Inr results, q3, cs3) \<Rightarrow>
                  if results = None \<or> length (the results) = 0
                  then (Inr False, s, w\<lparr>heap := (heap w)(r := q3), calls := cs3\<rparr>)
                  else
                    (case (if length (result_cache s) = 0 then
                             (case Query_get_count bk q3 cs3 of
                                (Inl e, q4, cs4) \<Rightarrow> (Inl e, s, q4, cs4)
                              | (Inr None, q4, cs4) \<Rightarrow> (Inl TypeError, s, q4, cs4)
                              | (Inr (Some n), q4, cs4) \<Rightarrow>
                                  (Inr (), s\<lparr>result_cache := replicate (nat n) (Val PNone)\<rparr>,
                                   q4, cs4))
                           else (Inr (), s, q3, cs3)) of
                       (Inl e, s4, q4, cs4) \<Rightarrow>
                         (Inl e, s4, w\<lparr>heap := (heap w)(r := q4), calls := cs4\<rparr>)
                     | (Inr u, s4, q4, cs4) \<Rightarrow>
                         (let start' = (case start of None \<Rightarrow> 0 | Some a \<Rightarrow> a)
                          in case (case endpos of
                                     None \<Rightarrow> Query_get_count bk q4 cs4
                                   | Some b \<Rightarrow> (Inr (Some b), q4, cs4)) of
                               (Inl e, q5, cs5) \<Rightarrow>
                                 (Inl e, s4, w\<lparr>heap := (heap w)(r := q5), calls := cs5\<rparr>)
                             | (Inr endpos', q5, cs5) \<Rightarrow>
                                 (case post_process_results s4 (the results) of
                                    Inl e \<Rightarrow>
                                      (Inl e, s4, w\<lparr>heap := (heap w)(r := q5), calls := cs5\<rparr>)
                                  | Inr to_cache \<Rightarrow>
                                      (Inr True,
                                       s4\<lparr>result_cache :=
                                            py_slice_assign (result_cache s4) start'
                                              (start' + int (length to_cache)) to_cache\<rparr>,
                                       w\<lparr>heap := (heap w)(r := q5), calls := cs5\<rparr>))))))"

text \<open>
  The subscript of \<^verbatim>\<open>__getitem__\<close>: an integer, a slice with optional integer bounds (the
  step is never read), or any other value.
\<close>

datatype subscript = Index int | Slice "int option" "int option" | Other pyval

datatype getitem_result = Item pyobj | Items "pyobj list"

definition SQS_getitem ::
  "conf \<Rightarrow> backend \<Rightarrow> subscript \<Rightarrow> sqs \<Rightarrow> world \<Rightarrow>
   (py_error + getitem_result) \<times> sqs \<times> world" where
  "SQS_getitem cf bk k s w =
     (case k of
        Other v \<Rightarrow> (Inl PyException, s, w)
      | _ \<Rightarrow>
        if \<not> (case k of
                 Index i \<Rightarrow> i \<ge> 0
               | Slice a b \<Rightarrow> (a = None \<or> the a \<ge> 0) \<and> (b = None \<or> the b \<ge> 0)
               | Other v \<Rightarrow> False)
        then (Inl AssertionError, s, w)
        else
          (let (is_slice, start, bound) =
                 (case k of
                    Slice a b \<Rightarrow>
                      (let start = (case a of Some x \<Rightarrow> x | None \<Rightarrow> 0);
                           bound = (case b of Some y \<Rightarrow> y | None \<Rightarrow> start + SIZE_PER_QUERY cf)
                       in (True, start, bound))
                  | Index i \<Rightarrow> (False, i, i + 1)
                  | Other v \<Rightarrow> (False, 0, 0));
               (need, s1, w1) =
                 (if length (result_cache s) \<le> 0 then (Inr True, s, w)
                  else if Val PNone \<in> set (py_slice (result_cache s) start bound) then
                    (case SQS_cache_is_full bk s w of
                       (Inl e, s1, w1) \<Rightarrow> (Inl e, s1, w1)
                     | (Inr full, s1, w1) \<Rightarrow> (Inr (\<not> full), s1, w1))
                  else (Inr False, s, w))
           in case need of
                Inl e \<Rightarrow> (Inl e, s1, w1)
              | Inr fill \<Rightarrow>
                  (case (if fill then SQS_fill_cache bk (Some start) (Some bound) s1 w1
                         else (Inr True, s1, w1)) of
                     (Inl e, s2, w2) \<Rightarrow> (Inl e, s2, w2)
                   | (Inr filled, s2, w2) \<Rightarrow>
                       if is_slice then
                         (Inr (Items (py_slice (result_cache s2) start bound)), s2, w2)
                       else if nat start < length (result_cache s2) then
                         (Inr (Item (result_cache s2 ! nat start)), s2, w2)
                       else (Inl IndexError, s2, w2))))"

text \<open>
  \<^verbatim>\<open>_manual_iter\<close>, run to exhaustion by one consumer: the records it yields, the
  exception that ended it if any, and the state it leaves. \<^verbatim>\<open>raise StopIteration\<close> ends
  the generator. Each round of the outer loop takes one unit of \<open>fuel\<close>; \<open>None\<close> means
  the fuel ran out before the generator ended.
\<close>

fun manual_iter ::
  "nat \<Rightarrow> conf \<Rightarrow> backend \<Rightarrow> nat \<Rightarrow> nat \<Rightarrow> pyobj list \<Rightarrow> sqs \<Rightarrow> world \<Rightarrow>
   (pyobj list \<times> py_error option \<times> sqs \<times> world) option" where
  "manual_iter 0 cf bk current_position current_cache_max out s w = None"
| "manual_iter (Suc fuel) cf bk current_position current_cache_max out s w =
     (let cache = result_cache s;
          cache_max =
            (if length cache > 0 then
               (if Val PNone \<in> set cache
                then length (takeWhile (\<lambda>x. x \<noteq> Val PNone) cache)
                else length cache)
             else current_cache_max)
      in if current_position < cache_max \<and> length cache < cache_max then
           Some (out @ drop current_position cache, Some IndexError, s, w)
         else
           (let out1 = out @ take (cache_max - current_position) (drop current_position cache);
                position = max current_position cache_max
            in case SQS_cache_is_full bk s w of
                 (Inl e, s1, w1) \<Rightarrow> Some (out1, Some e, s1, w1)
               | (Inr True, s1, w1) \<Rightarrow> Some (out1, None, s1, w1)
               | (Inr False, s1, w1) \<Rightarrow>
                   (case SQS_fill_cache bk (Some (int position))
                           (Some (int position + SIZE_PER_QUERY cf)) s1 w1 of
                      (Inl e, s2, w2) \<Rightarrow> Some (out1, Some e, s2, w2)
                    | (Inr False, s2, w2) \<Rightarrow> Some (out1, None, s2, w2)
                    | (Inr True, s2, w2) \<Rightarrow>
                        manual_iter fuel cf bk position cache_max out1 s2 w2)))"

text \<open>\<^verbatim>\<open>__iter__\<close> followed by the exhaustion of the iterator it returns.\<close>

definition SQS_iter ::
  "nat \<Rightarrow> conf \<Rightarrow> backend \<Rightarrow> sqs \<Rightarrow> world \<Rightarrow>
   (pyobj list \<times> py_error option \<times> sqs \<times> world) option" where
  "SQS_iter fuel cf bk s w =
     (case SQS_cache_is_full bk s w of
        (Inl e, s1, w1) \<Rightarrow> Some ([], Some e, s1, w1)
      | (Inr True, s1, w1) \<Rightarrow> Some (result_cache s1, None, s1, w1)
      | (Inr False, s1, w1) \<Rightarrow> manual_iter fuel cf bk 0 0 [] s1 w1)"

text \<open>\<^verbatim>\<open>_clone\<close>: a new SQS, built by \<^verbatim>\<open>__init__\<close> around the receiver's own Query.\<close>

definition SQS_clone :: "sqs \<Rightarrow> world \<Rightarrow> sqs \<times> world" where
  "SQS_clone s w = SQS_init (index_name s) (doc_type s) (Some (query_ref s)) (process_results s) w"

text \<open>
  The pattern of every chain method: \<^verbatim>\<open>clone = self._clone(); clone.query.m(...); return
  clone\<close>. An exception of \<open>m\<close> leaves the Query as \<open>m\<close> left it.
\<close>

definition chain ::
  "(query \<Rightarrow> py_error option \<times> query) \<Rightarrow> sqs \<Rightarrow> world \<Rightarrow> (py_error + sqs) \<times> world" where
  "chain m s w =
     (let (clone, w1) = SQS_clone s w;
          (err, q1) = m (heap w1 (query_ref clone));
          w2 = w1\<lparr>heap := (heap w1)(query_ref clone := q1)\<rparr>
      in (case err of None \<Rightarrow> Inr clone | Some e \<Rightarrow> Inl e, w2))"

definition SQS_search :: "pyval \<Rightarrow> pyval \<Rightarrow> sqs \<Rightarrow> world \<Rightarrow> (py_error + sqs) \<times> world" where
  "SQS_search content search_fields =
     chain (\<lambda>q. (None, Query_add_search_query content search_fields q))"

definition SQS_filter_and :: "pydict \<Rightarrow> sqs \<Rightarrow> world \<Rightarrow> (py_error + sqs) \<times> world" where
  "SQS_filter_and kwargs = chain (Query_add_filter_and kwargs)"

definition SQS_filter_or :: "pydict \<Rightarrow> sqs \<Rightarrow> world \<Rightarrow> (py_error + sqs) \<times> world" where
  "SQS_filter_or kwargs = chain (Query_add_filter_or kwargs)"

definition SQS_filter :: "conf \<Rightarrow> pydict \<Rightarrow> sqs \<Rightarrow> world \<Rightarrow> (py_error + sqs) \<times> world" where
  "SQS_filter cf kwargs =
     chain (if DEFAULT_FILTER cf = ''AND'' then Query_add_filter_and kwargs
            else Query_add_filter_or kwargs)"

definition SQS_only :: "pyval list \<Rightarrow> sqs \<Rightarrow> world \<Rightarrow> (py_error + sqs) \<times> world" where
  "SQS_only flds = chain (\<lambda>q. (None, Query_add_fields (PTuple flds) q))"

definition SQS_sort :: "pyval list \<Rightarrow> sqs \<Rightarrow> world \<Rightarrow> (py_error + sqs) \<times> world" where
  "SQS_sort args = chain (Query_add_sort args)"

definition SQS_raw_query :: "pyval \<Rightarrow> sqs \<Rightarrow> world \<Rightarrow> (py_error + sqs) \<times> world" where
  "SQS_raw_query rq = chain (\<lambda>q. (None, Query_add_raw_query rq q))"

definition SQS_raw_params :: "pyval \<Rightarrow> sqs \<Rightarrow> world \<Rightarrow> (py_error + sqs) \<times> world" where
  "SQS_raw_params ps = chain (\<lambda>q. (None, Query_add_raw_params ps q))"

definition SQS_function_score :: "pyval \<Rightarrow> sqs \<Rightarrow> world \<Rightarrow> (py_error + sqs) \<times> world" where
  "SQS_function_score fs = chain (\<lambda>q. (None, Query_add_function_score fs q))"

definition SQS_facet :: "string \<Rightarrow> pydict \<Rightarrow> sqs \<Rightarrow> world \<Rightarrow> (py_error + sqs) \<times> world" where
  "SQS_facet field kwargs = chain (\<lambda>q. (None, Query_add_term_facet field kwargs q))"

definition SQS_facet_filter ::
  "string \<Rightarrow> pydict \<Rightarrow> sqs \<Rightarrow> world \<Rightarrow> (py_error + sqs) \<times> world" where
  "SQS_facet_filter field flt = chain (Query_add_term_facet_filter field flt)"

definition SQS_suggest ::
  "pyval \<Rightarrow> pyval \<Rightarrow> pyval \<Rightarrow> pyval \<Rightarrow> sqs \<Rightarrow> world \<Rightarrow> (py_error + sqs) \<times> world" where
  "SQS_suggest suggest_text suggest_field suggest_mode suggest_size =
     chain (\<lambda>q. (None, Query_add_suggestion suggest_text suggest_field suggest_mode suggest_size q))"

definition SQS_mlt :: "pyval \<Rightarrow> pyval \<Rightarrow> pydict \<Rightarrow> sqs \<Rightarrow> world \<Rightarrow> (py_error + sqs) \<times> world" where
  "SQS_mlt docid flds kwargs = chain (\<lambda>q. (None, Query_mlt docid flds kwargs q))"

definition SQS_show_query :: "sqs \<Rightarrow> world \<Rightarrow> py_error + pyval" where
  "SQS_show_query s w = Query_build_query (heap w (query_ref s))"

text \<open>\<^verbatim>\<open>SQS.reset\<close>: its whole body is \<^verbatim>\<open>self.query._reset()\<close>.\<close>

definition SQS_reset :: "sqs \<Rightarrow> world \<Rightarrow> sqs \<times> world" where
  "SQS_reset s w = (s, w\<lparr>heap := (heap w)(query_ref s := Query_reset (heap w (query_ref s)))\<rparr>)"

text \<open>\<^verbatim>\<open>remove\<close>: the bare \<^verbatim>\<open>except\<close> turns every exception of the call into None.\<close>

definition SQS_remove :: "backend \<Rightarrow> pyval \<Rightarrow> sqs \<Rightarrow> world \<Rightarrow> (py_error + pyobj) \<times> world" where
  "SQS_remove bk doc_id s w =
     (let c = DeleteCall (index_name s) (doc_type s) doc_id
      in (case bk_delete bk (length (calls w)) c of
            Inl e \<Rightarrow> Inr (Val PNone)
          | Inr v \<Rightarrow> Inr (Val v),
          w\<lparr>calls := calls w @ [c]\<rparr>))"

text \<open>
  The body of the \<^verbatim>\<open>try\<close> of \<^verbatim>\<open>get\<close>, given the reply of the backend: \<open>key\<close> is
  \<^verbatim>\<open>fields\<close> when fields were asked for and \<^verbatim>\<open>_source\<close> otherwise.
\<close>

definition get_body :: "sqs \<Rightarrow> string \<Rightarrow> pyval \<Rightarrow> py_error + pyobj" where
  "get_body s key result =
     (if process_results s then
        bind_err (py_getitem result ''_id'') (\<lambda>pk.
        bind_err (py_get result key) (\<lambda>body.
        bind_err (SearchResult_init (index_name s) (doc_type s) pk (PInt 0) body) (\<lambda>r.
        Inr (Obj r))))
      else bind_err (py_get result key) (\<lambda>body. Inr (Val body)))"

definition SQS_get ::
  "backend \<Rightarrow> pyval \<Rightarrow> pyval \<Rightarrow> sqs \<Rightarrow> world \<Rightarrow> (py_error + pyobj) \<times> world" where
  "SQS_get bk doc_id flds s w =
     (let c = GetCall (index_name s) doc_id (doc_type s) (if truthy flds then flds else PNone);
          key = (if truthy flds then ''fields'' else ''_source'')
      in (case bind_err (bk_get bk (length (calls w)) c) (get_body s key) of
            Inl e \<Rightarrow> Inr (Val PNone)
          | Inr v \<Rightarrow> Inr v,
          w\<lparr>calls := calls w @ [c]\<rparr>))"

definition SQS_get_suggestions ::
  "backend \<Rightarrow> sqs \<Rightarrow> world \<Rightarrow>
   (py_error + (string \<times> string option) list option) \<times> world" where
  "SQS_get_suggestions bk s w =
     (case Query_get_suggestions bk (heap w (query_ref s)) (calls w) of
        (r, q1, cs1) \<Rightarrow> (r, w\<lparr>heap := (heap w)(query_ref s := q1), calls := cs1\<rparr>))"

text \<open>The chain methods of SQS as one family, and the Query method each of them calls.\<close>

datatype chain_op =
  OpSearch pyval pyval | OpFilter pydict | OpFilterAnd pydict | OpFilterOr pydict
  | OpOnly "pyval list" | OpSort "pyval list" | OpRawQuery pyval | OpRawParams pyval
  | OpFunctionScore pyval | OpFacet string pydict | OpFacetFilter string pydict
  | OpSuggest pyval pyval pyval pyval | OpMlt pyval pyval pydict

fun SQS_chain_op :: "conf \<Rightarrow> chain_op \<Rightarrow> sqs \<Rightarrow> world \<Rightarrow> (py_error + sqs) \<times> world" where
  "SQS_chain_op cf (OpSearch content search_fields) = SQS_search content search_fields"
| "SQS_chain_op cf (OpFilter kwargs) = SQS_filter cf kwargs"
| "SQS_chain_op cf (OpFilterAnd kwargs) = SQS_filter_and kwargs"
| "SQS_chain_op cf (OpFilterOr kwargs) = SQS_filter_or kwargs"
| "SQS_chain_op cf (OpOnly flds) = SQS_only flds"
| "SQS_chain_op cf (OpSort args) = SQS_sort args"
| "SQS_chain_op cf (OpRawQuery rq) = SQS_raw_query rq"
| "SQS_chain_op cf (OpRawParams ps) = SQS_raw_params ps"
| "SQS_chain_op cf (OpFunctionScore fs) = SQS_function_score fs"
| "SQS_chain_op cf (OpFacet field kwargs) = SQS_facet field kwargs"
| "SQS_chain_op cf (OpFacetFilter field flt) = SQS_facet_filter field flt"
| "SQS_chain_op cf (OpSuggest t f m n) = SQS_suggest t f m n"
| "SQS_chain_op cf (OpMlt docid flds kwargs) = SQS_mlt docid flds kwargs"

fun Query_chain_op :: "conf \<Rightarrow> chain_op \<Rightarrow> query \<Rightarrow> py_error option \<times> query" where
  "Query_chain_op cf (OpSearch content search_fields) q =
     (None, Query_add_search_query content search_fields q)"
| "Query_chain_op cf (OpFilter kwargs) q =
     (if DEFAULT_FILTER cf = ''AND'' then Query_add_filter_and kwargs q
      else Query_add_filter_or kwargs q)"
| "Query_chain_op cf (OpFilterAnd kwargs) q = Query_add_filter_and kwargs q"
| "Query_chain_op cf (OpFilterOr kwargs) q = Query_add_filter_or kwargs q"
| "Query_chain_op cf (OpOnly flds) q = (None, Query_add_fields (PTuple flds) q)"
| "Query_chain_op cf (OpSort args) q = Query_add_sort args q"
| "Query_chain_op cf (OpRawQuery rq) q = (None, Query_add_raw_query rq q)"
| "Query_chain_op cf (OpRawParams ps) q = (None, Query_add_raw_params ps q)"
| "Query_chain_op cf (OpFunctionScore fs) q = (None, Query_add_function_score fs q)"
| "Query_chain_op cf (OpFacet field kwargs) q = (None, Query_add_term_facet field kwargs q)"
| "Query_chain_op cf (OpFacetFilter field flt) q = Query_add_term_facet_filter field flt q"
| "Query_chain_op cf (OpSuggest t f m n) q = (None, Query_add_suggestion t f m n q)"
| "Query_chain_op cf (OpMlt docid flds kwargs) q = (None, Query_mlt docid flds kwargs q)"


section \<open>Example inputs\<close>

text \<open>A store with no Query object yet and no request sent.\<close>

definition empty_world :: world where
  "empty_world = \<lparr> heap = (\<lambda>r. Query_init [] PNone), next_ref = 0, calls = [] \<rparr>"

text \<open>A backend every call of which raises the given exception.\<close>

definition failing_backend :: "py_error \<Rightarrow> backend" where
  "failing_backend e =
     \<lparr> bk_search = (\<lambda>n c. Inl e), bk_mlt = (\<lambda>n c. Inl e),
       bk_get = (\<lambda>n c. Inl e), bk_delete = (\<lambda>n c. Inl e) \<rparr>"

text \<open>
  A backend that holds the ranked hits \<open>hs\<close> of the one query asked: a search returns the
  window \<^verbatim>\<open>hs[from_ : from_ + size]\<close> and the total \<open>length hs\<close>, without facet or
  suggestion sections; it stores no document.
\<close>

definition paged_backend :: "hit list \<Rightarrow> backend" where
  "paged_backend hs =
     \<lparr> bk_search = (\<lambda>n c.
         case c of
           SearchCall idx dt body ps \<Rightarrow>
             (case (map_of ps ''from_'', map_of ps ''size'') of
                (Some (PInt a), Some (PInt b)) \<Rightarrow>
                  Inr \<lparr> r_hits = take (nat b) (drop (nat a) hs), r_total = int (length hs),
                        r_facets = [], r_suggest = None \<rparr>
              | _ \<Rightarrow> Inl (BackendError ''RequestError''))
         | _ \<Rightarrow> Inl (BackendError ''RequestError'')),
       bk_mlt = (\<lambda>n c. Inl (BackendError ''RequestError'')),
       bk_get = (\<lambda>n c. Inl (BackendError ''NotFoundError'')),
       bk_delete = (\<lambda>n c. Inl (BackendError ''NotFoundError'')) \<rparr>"

text \<open>The hit of rank \<open>i\<close> of an example index, and the record it converts to.\<close>

definition example_hit :: "nat \<Rightarrow> hit" where
  "example_hit i =
     \<lparr> h_type = PStr ''doc'', h_id = PInt (int i), h_score = PInt 1, h_fields = PNone,
       h_source = PDict [(''rank'', PInt (int i))] \<rparr>"

definition example_record :: "nat \<Rightarrow> pyobj" where
  "example_record i =
     Obj \<lparr> sr_index_name = ''idx'', sr_doc_type = PStr ''doc'', sr_pk = PInt (int i),
           sr_score = PInt 1, sr_attrs = [(''rank'', PInt (int i))] \<rparr>"

text \<open>Settings, and a fresh result set over the index \<^verbatim>\<open>idx\<close> with the store it lives in.\<close>

definition example_conf :: conf where
  "example_conf = \<lparr> SIZE_PER_QUERY = 2, DEFAULT_FILTER = ''AND'' \<rparr>"

definition example_sqs :: sqs where
  "example_sqs = fst (SQS_init ''idx'' (PStr ''doc'') None True empty_world)"

definition example_world :: world where
  "example_world = snd (SQS_init ''idx'' (PStr ''doc'') None True empty_world)"


section \<open>Assumptions on the backend and consistent states\<close>

text \<open>
  The backend serves the ranked hits \<open>hs\<close>: every search request with a non-negative
  offset \<^verbatim>\<open>from_\<close> and size is answered with that window of \<open>hs\<close> and with the total
  \<open>length hs\<close>, without a suggestion section.
\<close>

definition serves :: "backend \<Rightarrow> hit list \<Rightarrow> bool" where
  "serves bk hs \<longleftrightarrow>
     (\<forall>n idx dt body ps a b.
        map_of ps ''from_'' = Some (PInt a) \<and> map_of ps ''size'' = Some (PInt b) \<and>
        0 \<le> a \<and> 0 \<le> b \<longrightarrow>
        (\<exists>r. bk_search bk n (SearchCall idx dt body ps) = Inr r \<and>
             r_hits r = take (nat b) (drop (nat a) hs) \<and> r_total r = int (length hs) \<and>
             r_suggest r = None))"

text \<open>
  A cache agrees with the records \<open>rs\<close> when it is not allocated yet, or has one slot per
  record and every slot is unfilled or holds the record of its rank.
\<close>

definition cache_consistent :: "pyobj list \<Rightarrow> pyobj list \<Rightarrow> bool" where
  "cache_consistent cache rs \<longleftrightarrow>
     cache = [] \<or> list_all2 (\<lambda>c r. c = Val PNone \<or> c = r) cache rs"

text \<open>
  A result set is consistent with the hits \<open>hs\<close> and their records \<open>rs\<close> when its query is
  a standard search that renders to \<open>body\<close>, the hits convert to \<open>rs\<close>, the cache agrees
  with \<open>rs\<close>, and every count known so far is \<open>length hs\<close>.
\<close>

definition consistent_with :: "hit list \<Rightarrow> pyobj list \<Rightarrow> pyval \<Rightarrow> sqs \<Rightarrow> world \<Rightarrow> bool" where
  "consistent_with hs rs body s w \<longleftrightarrow>
     Query_build_query (heap w (query_ref s)) = Inr body \<and>
     \<not> mlt_query (heap w (query_ref s)) \<and>
     post_process_results s hs = Inr rs \<and>
     cache_consistent (result_cache s) rs \<and>
     (result_count s = None \<or> result_count s = Some (int (length hs))) \<and>
     (hit_count (heap w (query_ref s)) = None \<or>
      hit_count (heap w (query_ref s)) = Some (int (length hs)))"

text \<open>The index of the first unfilled slot, or the length of a cache without one.\<close>

definition first_unfilled :: "pyobj list \<Rightarrow> nat" where
  "first_unfilled cache = length (takeWhile (\<lambda>x. x \<noteq> Val PNone) cache)"


section \<open>The rendered query\<close>

text \<open>
  C4. Once a raw query override is set, \<^verbatim>\<open>build_query\<close> returns exactly the override,
  whatever the search terms, AND/OR filters, facets, sort, function score, raw top-level
  params and request params are.
\<close>

theorem build_query_raw_override:
  assumes "raw_query q \<noteq> PNone"
  shows "Query_build_query q = Inr (raw_query q) \<and>
         Query_build_query
           (q\<lparr>search_terms := st, filter_and_terms := fa, filter_or_terms := fo,
              facets := fc, sort_q := so, function_score := fs, raw_params := rp,
              params := ps\<rparr>) = Inr (raw_query q)"
  using assms by (simp add: Query_build_query_def)

theorem build_query_raw_override_witness:
  "Query_build_query
     (Query_add_raw_query (PDict [(''match_all'', PDict [])])
        (Query_add_search_query (PStr ''shoes'') PNone (Query_init ''idx'' PNone)))
   = Inr (PDict [(''match_all'', PDict [])]) \<and>
   Query_build_query
     ((Query_add_raw_query (PDict [(''match_all'', PDict [])])
        (Query_add_search_query (PStr ''shoes'') PNone (Query_init ''idx'' PNone)))
      \<lparr>search_terms := None, filter_and_terms := Some [], filter_or_terms := None,
         facets := None, sort_q := Some [PStr ''price''],
         function_score := PDict [], raw_params := PDict [], params := []\<rparr>)
   = Inr (PDict [(''match_all'', PDict [])])"
  using build_query_raw_override
    [where q = "Query_add_raw_query (PDict [(''match_all'', PDict [])])
          (Query_add_search_query (PStr ''shoes'') PNone (Query_init ''idx'' PNone))"
       and st = None and fa = "Some []" and fo = None and fc = None
       and so = "Some [PStr ''price'']" and fs = "PDict []" and rp = "PDict []" and ps = "[]"]
  by (simp add: Query_add_raw_query_def Query_add_search_query_def Query_init_def)

text \<open>
  C6. With a function-score spec set and no raw override, \<^verbatim>\<open>build_query\<close> builds the
  literal \<^verbatim>\<open>{"function_score": {"query": {"match_all": {}}}}\<close> and then reads its key
  \<^verbatim>\<open>query\<close>, which the literal does not have: every such state raises KeyError and no
  mapping is rendered.
\<close>

theorem build_query_function_score_raises:
  assumes "raw_query q = PNone" and "function_score q \<noteq> PNone"
  shows "Query_build_query q = Inl KeyError"
  using assms by (simp add: Query_build_query_def bind_err_def py_getitem_def)

theorem build_query_function_score_raises_witness:
  "Query_build_query
     (Query_add_function_score (PDict [(''boost_mode'', PStr ''sum'')])
        (Query_init ''idx'' PNone)) = Inl KeyError"
  using build_query_function_score_raises
    [of "Query_add_function_score (PDict [(''boost_mode'', PStr ''sum'')])
          (Query_init ''idx'' PNone)"]
  by (simp add: Query_add_function_score_def Query_init_def)


section \<open>Operator parsing of filter criteria\<close>

lemma py_split_nonempty: "py_split s \<noteq> []"
  by (induction s rule: py_split.induct) (auto split: list.splits)

lemma py_split_single: "py_split key = [k] \<Longrightarrow> k = key"
  using py_split_nonempty
  by (induction key arbitrary: k rule: py_split.induct) (auto split: if_splits list.splits)

lemma py_split_suffix:
  "plain_field field \<Longrightarrow> py_split (field @ ''__'' @ operator) = field # py_split operator"
  unfolding plain_field_def
proof (induction field rule: py_split.induct)
  case 1
  then show ?case by simp
next
  case (2 c)
  then show ?case by simp
next
  case (3 c d cs)
  show ?case
  proof (cases "c = CHR ''_'' \<and> d = CHR ''_''")
    case True
    with 3(3) show ?thesis by simp
  next
    case False
    from 3(3) False have inner: "py_split (d # cs) = [d # cs]"
      using py_split_nonempty[of "d # cs"] by (auto split: list.splits)
    from 3(3) have "d # cs = [] \<or> last (d # cs) \<noteq> CHR ''_''" by auto
    with 3(2)[OF False] inner
    have "py_split ((d # cs) @ ''__'' @ operator) = (d # cs) # py_split operator" by blast
    with False show ?thesis by simp
  qed
qed

lemma filter_loop_append:
  "fst (filter_loop kwargs terms) = None \<Longrightarrow>
   length (snd (filter_loop kwargs terms)) = length terms + length kwargs \<and>
   (\<forall>i < length kwargs.
      filter_query (fst (kwargs ! i)) (snd (kwargs ! i)) =
        Inr (snd (filter_loop kwargs terms) ! (length terms + i))) \<and>
   take (length terms) (snd (filter_loop kwargs terms)) = terms"
proof (induction kwargs arbitrary: terms)
  case Nil
  then show ?case by simp
next
  case (Cons kv kwargs)
  obtain key val where kv: "kv = (key, val)" by (cases kv)
  from Cons.prems kv obtain fq where fq: "filter_query key val = Inr fq"
    by (auto split: sum.splits)
  with Cons.prems kv have ok: "fst (filter_loop kwargs (terms @ [fq])) = None" by simp
  note ih = Cons.IH[OF ok]
  have eq: "filter_loop (kv # kwargs) terms = filter_loop kwargs (terms @ [fq])"
    using kv fq by simp
  show ?case unfolding eq
  proof (intro conjI allI impI)
    show "length (snd (filter_loop kwargs (terms @ [fq]))) = length terms + length (kv # kwargs)"
      using ih by simp
  next
    fix i assume i: "i < length (kv # kwargs)"
    show "filter_query (fst ((kv # kwargs) ! i)) (snd ((kv # kwargs) ! i)) =
          Inr (snd (filter_loop kwargs (terms @ [fq])) ! (length terms + i))"
    proof (cases i)
      case 0
      from ih have "take (Suc (length terms)) (snd (filter_loop kwargs (terms @ [fq]))) = terms @ [fq]"
        by simp
      then have "snd (filter_loop kwargs (terms @ [fq])) ! length terms = (terms @ [fq]) ! length terms"
        by (metis lessI nth_take)
      with 0 kv fq show ?thesis by simp
    next
      case (Suc j)
      with i ih show ?thesis by simp
    qed
  next
    from ih have "take (Suc (length terms)) (snd (filter_loop kwargs (terms @ [fq]))) = terms @ [fq]"
      by simp
    then have "take (length terms) (take (Suc (length terms)) (snd (filter_loop kwargs (terms @ [fq])))) = terms"
      by simp
    then show "take (length terms) (snd (filter_loop kwargs (terms @ [fq]))) = terms"
      by (simp add: min_def)
  qed
qed

lemma py_split_operator:
  "operator \<in> {''gt'', ''gte'', ''lt'', ''lte'', ''in''} \<Longrightarrow> py_split operator = [operator]"
proof -
  have "py_split ''gt'' = [''gt'']" "py_split ''gte'' = [''gte'']" "py_split ''lt'' = [''lt'']"
    "py_split ''lte'' = [''lte'']" "py_split ''in'' = [''in'']"
    by code_simp+
  then show "operator \<in> {''gt'', ''gte'', ''lt'', ''lte'', ''in''} \<Longrightarrow> py_split operator = [operator]"
    by blast
qed

lemma suffixed_key_not_ids: "field @ ''__'' @ operator \<noteq> ''ids''"
proof
  assume eq: "field @ ''__'' @ operator = ''ids''"
  have "CHR ''_'' \<in> set (field @ ''__'' @ operator)" by simp
  with eq have "CHR ''_'' \<in> set ''ids''" by simp
  then show False by simp
qed

lemma split_key_suffixed:
  assumes "plain_field field" and "operator \<in> {''gt'', ''gte'', ''lt'', ''lte'', ''in''}"
  shows "split_key (field @ ''__'' @ operator) = Inr (field, Some operator)"
proof -
  have "py_split (field @ ''__'' @ operator) = [field, operator]"
    using py_split_suffix[OF assms(1), of operator] py_split_operator[OF assms(2)] by simp
  then show ?thesis by (simp add: split_key_def)
qed

lemma split_key_plain: "py_split key = [key] \<Longrightarrow> split_key key = Inr (key, None)"
  by (simp add: split_key_def)

lemma filter_query_range:
  assumes "plain_field field" and "operator \<in> {''gt'', ''gte'', ''lt'', ''lte''}"
  shows "filter_query (field @ ''__'' @ operator) val =
         Inr (PDict [(''range'', PDict [(field, PDict [(operator, val)])])])"
proof -
  from assms(2) have "operator \<in> {''gt'', ''gte'', ''lt'', ''lte'', ''in''}" by blast
  from split_key_suffixed[OF assms(1) this] suffixed_key_not_ids[of field operator] assms(2)
  show ?thesis unfolding filter_query_def by auto
qed

lemma filter_query_in:
  assumes "plain_field field"
  shows "filter_query (field @ ''__in'') val = Inr (PDict [(''terms'', PDict [(field, val)])])"
proof -
  have "split_key (field @ ''__'' @ ''in'') = Inr (field, Some ''in'')"
    using split_key_suffixed[OF assms, of "''in''"] by blast
  moreover have "field @ ''__'' @ ''in'' \<noteq> ''ids''" by (rule suffixed_key_not_ids)
  ultimately show ?thesis unfolding filter_query_def by simp
qed

lemma filter_query_plain:
  assumes "key \<noteq> ''ids''" and "py_split key = [key]"
  shows "filter_query key val =
         Inr (PDict [(if is_list val then ''terms'' else ''term'', PDict [(key, val)])])"
  using assms(1) split_key_plain[OF assms(2)] unfolding filter_query_def by simp


text \<open>
  C5 (as amended). For a criteria mapping that \<^verbatim>\<open>add_filter_and\<close> accepts, the filter
  appended for the entry at position \<open>i\<close> is: a range filter on the base field with the
  given bound for a key \<^verbatim>\<open>field__gt\<close>, \<^verbatim>\<open>field__gte\<close>, \<^verbatim>\<open>field__lt\<close> or
  \<^verbatim>\<open>field__lte\<close>, whatever the value is; a terms filter for a key \<^verbatim>\<open>field__in\<close>, and for
  a key without separator, other than \<^verbatim>\<open>ids\<close>, whose value is a list; an exact-term
  filter for a key without separator, other than \<^verbatim>\<open>ids\<close>, whose value is no list; an
  ids filter for the key \<^verbatim>\<open>ids\<close>.
  Earlier filters stay in place and the new ones follow in the order of the mapping.
\<close>

theorem add_filter_and_operator_parsing:
  assumes ok: "fst (Query_add_filter_and kwargs q) = None"
    and i: "i < length kwargs"
    and kv: "kwargs ! i = (key, val)"
  shows
    "(let must = (case filter_and_terms q of None \<Rightarrow> [] | Some xs \<Rightarrow> xs);
          must' = the (filter_and_terms (snd (Query_add_filter_and kwargs q)));
          fq = must' ! (length must + i)
      in length must' = length must + length kwargs \<and> take (length must) must' = must \<and>
         (\<forall>field operator.
            key = field @ ''__'' @ operator \<and> plain_field field \<and>
            operator \<in> {''gt'', ''gte'', ''lt'', ''lte''} \<longrightarrow>
            fq = PDict [(''range'', PDict [(field, PDict [(operator, val)])])]) \<and>
         (\<forall>field. key = field @ ''__in'' \<and> plain_field field \<longrightarrow>
            fq = PDict [(''terms'', PDict [(field, val)])]) \<and>
         (key \<noteq> ''ids'' \<and> py_split key = [key] \<and> is_list val \<longrightarrow>
            fq = PDict [(''terms'', PDict [(key, val)])]) \<and>
         (key \<noteq> ''ids'' \<and> py_split key = [key] \<and> \<not> is_list val \<longrightarrow>
            fq = PDict [(''term'', PDict [(key, val)])]) \<and>
         (key = ''ids'' \<longrightarrow> fq = PDict [(''ids'', PDict [(''values'', val)])]))"
proof -
  define must where "must = (case filter_and_terms q of None \<Rightarrow> [] | Some xs \<Rightarrow> xs)"
  define must' where "must' = snd (filter_loop kwargs must)"
  define fq where "fq = must' ! (length must + i)"
  have res: "Query_add_filter_and kwargs q =
             (fst (filter_loop kwargs must), q\<lparr>filter_and_terms := Some must'\<rparr>)"
    by (simp add: Query_add_filter_and_def must_def must'_def Let_def split_beta)
  with ok have ok': "fst (filter_loop kwargs must) = None" by simp
  note fl = filter_loop_append[OF ok', folded must'_def]
  from fl i have "filter_query (fst (kwargs ! i)) (snd (kwargs ! i)) = Inr fq"
    unfolding fq_def by blast
  with kv have fq: "filter_query key val = Inr fq" by simp
  have a: "\<forall>field operator.
            key = field @ ''__'' @ operator \<and> plain_field field \<and>
            operator \<in> {''gt'', ''gte'', ''lt'', ''lte''} \<longrightarrow>
            fq = PDict [(''range'', PDict [(field, PDict [(operator, val)])])]"
    using fq filter_query_range[where val = val] by fastforce
  have b: "\<forall>field. key = field @ ''__in'' \<and> plain_field field \<longrightarrow>
            fq = PDict [(''terms'', PDict [(field, val)])]"
    using fq filter_query_in[where val = val] by fastforce
  have c: "key \<noteq> ''ids'' \<and> py_split key = [key] \<and> is_list val \<longrightarrow>
            fq = PDict [(''terms'', PDict [(key, val)])]"
    using fq filter_query_plain[of key val] by auto
  have d: "key \<noteq> ''ids'' \<and> py_split key = [key] \<and> \<not> is_list val \<longrightarrow>
            fq = PDict [(''term'', PDict [(key, val)])]"
    using fq filter_query_plain[of key val] by auto
  have ids: "key = ''ids'' \<longrightarrow> fq = PDict [(''ids'', PDict [(''values'', val)])]"
    using fq by (auto simp add: filter_query_def)
  have e: "length must' = length must + length kwargs \<and> take (length must) must' = must"
    using fl by blast
  have f: "the (filter_and_terms (snd (Query_add_filter_and kwargs q))) = must'"
    unfolding res by simp
  show ?thesis
    unfolding Let_def f must_def[symmetric] fq_def[symmetric]
    using a b c d e ids by blast
qed

theorem add_filter_and_operator_parsing_witness:
  "fst (Query_add_filter_and
          [(''price__gte'', PInt 10), (''category__in'', PList [PStr ''a'', PStr ''b'']),
           (''category'', PStr ''a'')] (Query_init ''idx'' PNone)) = None \<and>
   the (filter_and_terms (snd (Query_add_filter_and
          [(''price__gte'', PInt 10), (''category__in'', PList [PStr ''a'', PStr ''b'']),
           (''category'', PStr ''a'')] (Query_init ''idx'' PNone)))) ! 0
     = PDict [(''range'', PDict [(''price'', PDict [(''gte'', PInt 10)])])]"
proof -
  let ?kw = "[(''price__gte'', PInt 10), (''category__in'', PList [PStr ''a'', PStr ''b'']),
              (''category'', PStr ''a'')]"
  let ?q = "Query_init ''idx'' PNone"
  have ok: "fst (Query_add_filter_and ?kw ?q) = None"
    by code_simp
  have i: "0 < length ?kw" by simp
  have kv: "?kw ! 0 = (''price__gte'', PInt 10)" by simp
  have pf: "plain_field ''price''" by code_simp
  have none: "filter_and_terms ?q = None" by (simp add: Query_init_def)
  from add_filter_and_operator_parsing[OF ok i kv]
  have "\<forall>field operator.
          ''price__gte'' = field @ ''__'' @ operator \<and> plain_field field \<and>
          operator \<in> {''gt'', ''gte'', ''lt'', ''lte''} \<longrightarrow>
          the (filter_and_terms (snd (Query_add_filter_and ?kw ?q))) ! 0 =
            PDict [(''range'', PDict [(field, PDict [(operator, PInt 10)])])]"
    unfolding Let_def none by simp
  from this[rule_format, of "''price''" "''gte''"] pf ok show ?thesis by simp
qed

text \<open>
  As the specification states it, the property fails on a list value under a range operator (a range filter is
  rendered, not a terms filter) and on the key \<^verbatim>\<open>ids\<close>, which has no operator suffix
  and renders an ids filter, not an exact-term filter.
\<close>

theorem add_filter_and_operator_parsing_counterexample:
  "filter_and_terms (snd (Query_add_filter_and [(''price__gte'', PList [PInt 1, PInt 2])]
       (Query_init ''idx'' PNone)))
     = Some [PDict [(''range'', PDict [(''price'', PDict [(''gte'', PList [PInt 1, PInt 2])])])]] \<and>
   filter_and_terms (snd (Query_add_filter_and [(''price__gte'', PList [PInt 1, PInt 2])]
       (Query_init ''idx'' PNone)))
     \<noteq> Some [PDict [(''terms'', PDict [(''price'', PList [PInt 1, PInt 2])])]] \<and>
   filter_and_terms (snd (Query_add_filter_and [(''ids'', PStr ''7'')]
       (Query_init ''idx'' PNone)))
     = Some [PDict [(''ids'', PDict [(''values'', PStr ''7'')])]] \<and>
   filter_and_terms (snd (Query_add_filter_and [(''ids'', PStr ''7'')]
       (Query_init ''idx'' PNone)))
     \<noteq> Some [PDict [(''term'', PDict [(''ids'', PStr ''7'')])]]"
  by code_simp


section \<open>Subscript validation\<close>

text \<open>
  C8. A negative integer subscript, a slice with a negative start or stop, and a subscript
  that is neither an integer nor a slice make \<^verbatim>\<open>__getitem__\<close> raise at once: the result
  set and the store are returned as they were, so no request has been sent to the backend.
\<close>

theorem getitem_rejects_invalid_subscript:
  assumes "(\<exists>i. k = Index i \<and> i < 0)
           \<or> (\<exists>a b. k = Slice a b \<and> ((\<exists>x. a = Some x \<and> x < 0) \<or> (\<exists>y. b = Some y \<and> y < 0)))
           \<or> (\<exists>v. k = Other v)"
  shows "SQS_getitem cf bk k s w =
           (Inl (case k of Other v \<Rightarrow> PyException | _ \<Rightarrow> AssertionError), s, w)"
  using assms by (auto simp add: SQS_getitem_def)

theorem getitem_rejects_invalid_subscript_witness:
  "SQS_getitem example_conf (paged_backend [example_hit 0]) (Index (- 1)) example_sqs example_world
     = (Inl AssertionError, example_sqs, example_world) \<and>
   SQS_getitem example_conf (paged_backend [example_hit 0]) (Slice (Some 0) (Some (- 5)))
       example_sqs example_world
     = (Inl AssertionError, example_sqs, example_world) \<and>
   SQS_getitem example_conf (paged_backend [example_hit 0]) (Slice (Some (- 2)) None)
       example_sqs example_world
     = (Inl AssertionError, example_sqs, example_world) \<and>
   SQS_getitem example_conf (paged_backend [example_hit 0]) (Other (PStr ''a''))
       example_sqs example_world
     = (Inl PyException, example_sqs, example_world)"
  using getitem_rejects_invalid_subscript
          [of "Index (- 1)" example_conf "paged_backend [example_hit 0]" example_sqs example_world]
    getitem_rejects_invalid_subscript
          [of "Slice (Some 0) (Some (- 5))" example_conf "paged_backend [example_hit 0]"
              example_sqs example_world]
    getitem_rejects_invalid_subscript
          [of "Slice (Some (- 2)) None" example_conf "paged_backend [example_hit 0]"
              example_sqs example_world]
    getitem_rejects_invalid_subscript
          [of "Other (PStr ''a'')" example_conf "paged_backend [example_hit 0]"
              example_sqs example_world]
  by simp


section \<open>Soft-failing document operations\<close>

lemma get_body_absent:
  "map_of kvs key = None \<Longrightarrow> get_body s key (PDict kvs) = Inr (Val PNone) \<or> (\<exists>e. get_body s key (PDict kvs) = Inl e)"
  by (auto simp add: get_body_def bind_err_def py_get_def py_getitem_def SearchResult_init_def
      split: sum.splits option.splits)

text \<open>
  C9. \<^verbatim>\<open>remove\<close> and \<^verbatim>\<open>get\<close> never raise. When the backend call raises (a missing
  document is reported by an exception like any other failure) both return None, and
  \<^verbatim>\<open>get\<close> also returns None for a reply that lacks the payload, so the caller cannot
  tell a missing document from an unreachable backend.
\<close>

theorem remove_and_get_swallow_errors:
  "(\<exists>v. fst (SQS_remove bk doc_id s w) = Inr v) \<and>
   (\<exists>v. fst (SQS_get bk doc_id flds s w) = Inr v) \<and>
   (\<forall>e. bk_delete bk (length (calls w)) (DeleteCall (index_name s) (doc_type s) doc_id) = Inl e
        \<longrightarrow> fst (SQS_remove bk doc_id s w) = Inr (Val PNone)) \<and>
   (\<forall>e. bk_get bk (length (calls w))
           (GetCall (index_name s) doc_id (doc_type s) (if truthy flds then flds else PNone)) = Inl e
        \<longrightarrow> fst (SQS_get bk doc_id flds s w) = Inr (Val PNone)) \<and>
   (\<forall>kvs. bk_get bk (length (calls w))
           (GetCall (index_name s) doc_id (doc_type s) (if truthy flds then flds else PNone))
             = Inr (PDict kvs) \<and>
          map_of kvs (if truthy flds then ''fields'' else ''_source'') = None
        \<longrightarrow> fst (SQS_get bk doc_id flds s w) = Inr (Val PNone))"
proof (intro conjI allI impI)
  show "\<exists>v. fst (SQS_remove bk doc_id s w) = Inr v"
    by (simp add: SQS_remove_def Let_def split: sum.splits)
  show "\<exists>v. fst (SQS_get bk doc_id flds s w) = Inr v"
    by (simp add: SQS_get_def Let_def split: sum.splits)
next
  fix e
  assume "bk_delete bk (length (calls w)) (DeleteCall (index_name s) (doc_type s) doc_id) = Inl e"
  then show "fst (SQS_remove bk doc_id s w) = Inr (Val PNone)"
    by (simp add: SQS_remove_def Let_def)
next
  fix e
  assume "bk_get bk (length (calls w))
           (GetCall (index_name s) doc_id (doc_type s) (if truthy flds then flds else PNone)) = Inl e"
  then show "fst (SQS_get bk doc_id flds s w) = Inr (Val PNone)"
    by (simp add: SQS_get_def Let_def bind_err_def)
next
  fix kvs
  assume h: "bk_get bk (length (calls w))
           (GetCall (index_name s) doc_id (doc_type s) (if truthy flds then flds else PNone))
             = Inr (PDict kvs) \<and>
          map_of kvs (if truthy flds then ''fields'' else ''_source'') = None"
  from h get_body_absent[of kvs "if truthy flds then ''fields'' else ''_source''" s]
  show "fst (SQS_get bk doc_id flds s w) = Inr (Val PNone)"
    by (auto simp add: SQS_get_def Let_def bind_err_def)
qed

theorem remove_and_get_swallow_errors_witness:
  "fst (SQS_remove (failing_backend (BackendError ''ConnectionError'')) (PStr ''7'')
          (fst (SQS_init ''idx'' (PStr ''doc'') None True empty_world))
          (snd (SQS_init ''idx'' (PStr ''doc'') None True empty_world))) = Inr (Val PNone) \<and>
   fst (SQS_get (failing_backend (BackendError ''ConnectionError'')) (PStr ''7'') PNone
          (fst (SQS_init ''idx'' (PStr ''doc'') None True empty_world))
          (snd (SQS_init ''idx'' (PStr ''doc'') None True empty_world))) = Inr (Val PNone) \<and>
   fst (SQS_get (failing_backend (BackendError ''NotFoundError'')) (PStr ''7'') PNone
          (fst (SQS_init ''idx'' (PStr ''doc'') None True empty_world))
          (snd (SQS_init ''idx'' (PStr ''doc'') None True empty_world))) = Inr (Val PNone)"
proof -
  let ?s = "fst (SQS_init ''idx'' (PStr ''doc'') None True empty_world)"
  let ?w = "snd (SQS_init ''idx'' (PStr ''doc'') None True empty_world)"
  have d: "bk_delete (failing_backend (BackendError ''ConnectionError'')) (length (calls ?w))
            (DeleteCall (index_name ?s) (doc_type ?s) (PStr ''7'')) = Inl (BackendError ''ConnectionError'')"
    by (simp add: failing_backend_def)
  have g: "\<And>e. bk_get (failing_backend e) (length (calls ?w))
            (GetCall (index_name ?s) (PStr ''7'') (doc_type ?s) (if truthy PNone then PNone else PNone)) = Inl e"
    by (simp add: failing_backend_def)
  from remove_and_get_swallow_errors
         [of "failing_backend (BackendError ''ConnectionError'')" "PStr ''7''" ?s ?w PNone] d g
       remove_and_get_swallow_errors
         [of "failing_backend (BackendError ''NotFoundError'')" "PStr ''7''" ?s ?w PNone]
  show ?thesis by blast
qed


section \<open>Reset\<close>

lemma py_slice_single:
  assumes "0 \<le> i" and "nat i < length xs"
  shows "py_slice xs i (i + 1) = [xs ! nat i]"
proof -
  have lo: "slice_index (length xs) i = nat i"
    using assms by (simp add: slice_index_def)
  have hi: "slice_index (length xs) (i + 1) = Suc (nat i)"
    using assms by (simp add: slice_index_def nat_add_distrib)
  have "take (Suc 0) (drop (nat i) xs) = [xs ! nat i]"
    using assms(2) by (simp add: take_Suc_conv_app_nth)
  then show ?thesis
    by (simp add: py_slice_def lo hi)
qed

lemma build_query_reset: "Query_build_query (Query_reset q) = Query_build_query q"
  unfolding Query_build_query_def Query_reset_def
  by (simp add: Let_def cong: if_cong)

text \<open>
  C3. \<^verbatim>\<open>reset\<close> clears the four cached execution results of the Query and leaves its
  parameters and rendered query as they were, but it does not touch the result cache of
  the result set: a slot filled before the reset is served from the cache afterwards,
  without any request to the backend.
\<close>

theorem reset_keeps_result_cache:
  assumes "0 \<le> i" and "nat i < length (result_cache s)"
    and "result_cache s ! nat i \<noteq> Val PNone"
  shows
  "fst (SQS_reset s w) = s \<and>
   result_cache (fst (SQS_reset s w)) = result_cache s \<and>
   result_count (fst (SQS_reset s w)) = result_count s \<and>
   calls (snd (SQS_reset s w)) = calls w \<and>
   heap (snd (SQS_reset s w)) (query_ref s) = Query_reset (heap w (query_ref s)) \<and>
   results_c (Query_reset q) = None \<and> hit_count (Query_reset q) = None \<and>
   facet_counts_c (Query_reset q) = None \<and> suggestions_c (Query_reset q) = None \<and>
   Query_build_query (Query_reset q) = Query_build_query q \<and>
   params (Query_reset q) = params q \<and>
   SQS_getitem cf bk (Index i) (fst (SQS_reset s w)) (snd (SQS_reset s w)) =
     (Inr (Item (result_cache s ! nat i)), s, snd (SQS_reset s w))"
proof -
  have sl: "py_slice (result_cache s) i (i + 1) = [result_cache s ! nat i]"
    using assms py_slice_single by blast
  from assms have ne: "\<not> length (result_cache s) \<le> 0" by auto
  have g: "SQS_getitem cf bk (Index i) s (snd (SQS_reset s w)) =
        (Inr (Item (result_cache s ! nat i)), s, snd (SQS_reset s w))"
    using assms ne by (auto simp add: SQS_getitem_def sl)
  have b: "Query_build_query (Query_reset q) = Query_build_query q"
    by (rule build_query_reset)
  have r: "results_c (Query_reset q) = None \<and> hit_count (Query_reset q) = None \<and>
     facet_counts_c (Query_reset q) = None \<and> suggestions_c (Query_reset q) = None \<and>
     params (Query_reset q) = params q"
    by (simp add: Query_reset_def)
  have f: "fst (SQS_reset s w) = s" "calls (snd (SQS_reset s w)) = calls w"
    "heap (snd (SQS_reset s w)) (query_ref s) = Query_reset (heap w (query_ref s))"
    by (simp_all add: SQS_reset_def)
  show ?thesis
    unfolding f using g b r f by simp
qed

theorem reset_keeps_result_cache_witness:
  "SQS_getitem \<lparr>SIZE_PER_QUERY = 10, DEFAULT_FILTER = ''AND''\<rparr>
     (paged_backend [example_hit 0, example_hit 1]) (Index 0)
     (fst (SQS_reset
        ((fst (SQS_init ''idx'' (PStr ''doc'') None True empty_world))
           \<lparr>result_cache := [example_record 0, example_record 1], result_count := Some 2\<rparr>)
        (snd (SQS_init ''idx'' (PStr ''doc'') None True empty_world))))
     (snd (SQS_reset
        ((fst (SQS_init ''idx'' (PStr ''doc'') None True empty_world))
           \<lparr>result_cache := [example_record 0, example_record 1], result_count := Some 2\<rparr>)
        (snd (SQS_init ''idx'' (PStr ''doc'') None True empty_world))))
   = (Inr (Item (example_record 0)),
      (fst (SQS_init ''idx'' (PStr ''doc'') None True empty_world))
           \<lparr>result_cache := [example_record 0, example_record 1], result_count := Some 2\<rparr>,
      snd (SQS_reset
        ((fst (SQS_init ''idx'' (PStr ''doc'') None True empty_world))
           \<lparr>result_cache := [example_record 0, example_record 1], result_count := Some 2\<rparr>)
        (snd (SQS_init ''idx'' (PStr ''doc'') None True empty_world)))) \<and>
   calls (snd (SQS_reset
        ((fst (SQS_init ''idx'' (PStr ''doc'') None True empty_world))
           \<lparr>result_cache := [example_record 0, example_record 1], result_count := Some 2\<rparr>)
        (snd (SQS_init ''idx'' (PStr ''doc'') None True empty_world)))) = []"
proof -
  let ?s = "(fst (SQS_init ''idx'' (PStr ''doc'') None True empty_world))
           \<lparr>result_cache := [example_record 0, example_record 1], result_count := Some 2\<rparr>"
  let ?w = "snd (SQS_init ''idx'' (PStr ''doc'') None True empty_world)"
  let ?cf = "\<lparr>SIZE_PER_QUERY = 10, DEFAULT_FILTER = ''AND''\<rparr>"
  let ?bk = "paged_backend [example_hit 0, example_hit 1]"
  have c: "result_cache ?s ! nat 0 = example_record 0" by simp
  have h1: "(0::int) \<le> 0" by simp
  have h2: "nat 0 < length (result_cache ?s)" by simp
  have h3: "result_cache ?s ! nat 0 \<noteq> Val PNone" by (simp add: example_record_def)
  have e: "calls ?w = []" by (simp add: SQS_init_def empty_world_def)
  note t = reset_keeps_result_cache[OF h1 h2 h3, of ?w undefined ?cf ?bk]
  from t have g: "SQS_getitem ?cf ?bk (Index 0) (fst (SQS_reset ?s ?w)) (snd (SQS_reset ?s ?w)) =
     (Inr (Item (result_cache ?s ! nat 0)), ?s, snd (SQS_reset ?s ?w))" by blast
  from t have k: "calls (snd (SQS_reset ?s ?w)) = calls ?w" by blast
  show ?thesis using g k e unfolding c by simp
qed


section \<open>Chaining over a shared Query\<close>

lemma chain_result:
  "chain m s w =
     (case fst (m (heap w (query_ref s))) of
        None \<Rightarrow> Inr (s\<lparr>result_cache := [], result_count := None\<rparr>)
      | Some e \<Rightarrow> Inl e,
      w\<lparr>heap := (heap w)(query_ref s := snd (m (heap w (query_ref s))))\<rparr>)"
  by (cases s) (simp add: chain_def SQS_clone_def SQS_init_def Let_def split_beta split: option.splits)

lemma SQS_chain_op_chain: "SQS_chain_op cf op = chain (Query_chain_op cf op)"
proof (cases op)
  case (OpSearch c f)
  have "Query_chain_op cf (OpSearch c f) = (\<lambda>q. (None, Query_add_search_query c f q))"
    by (rule ext) simp
  with OpSearch show ?thesis by (simp add: SQS_search_def)
next
  case (OpFilter kw)
  have "Query_chain_op cf (OpFilter kw) =
        (if DEFAULT_FILTER cf = ''AND'' then Query_add_filter_and kw else Query_add_filter_or kw)"
    by (rule ext) simp
  with OpFilter show ?thesis by (simp add: SQS_filter_def)
next
  case (OpFilterAnd kw)
  have "Query_chain_op cf (OpFilterAnd kw) = Query_add_filter_and kw" by (rule ext) simp
  with OpFilterAnd show ?thesis by (simp add: SQS_filter_and_def)
next
  case (OpFilterOr kw)
  have "Query_chain_op cf (OpFilterOr kw) = Query_add_filter_or kw" by (rule ext) simp
  with OpFilterOr show ?thesis by (simp add: SQS_filter_or_def)
next
  case (OpOnly fl)
  have "Query_chain_op cf (OpOnly fl) = (\<lambda>q. (None, Query_add_fields (PTuple fl) q))"
    by (rule ext) simp
  with OpOnly show ?thesis by (simp add: SQS_only_def)
next
  case (OpSort args)
  have "Query_chain_op cf (OpSort args) = Query_add_sort args" by (rule ext) simp
  with OpSort show ?thesis by (simp add: SQS_sort_def)
next
  case (OpRawQuery rq)
  have "Query_chain_op cf (OpRawQuery rq) = (\<lambda>q. (None, Query_add_raw_query rq q))"
    by (rule ext) simp
  with OpRawQuery show ?thesis by (simp add: SQS_raw_query_def)
next
  case (OpRawParams ps)
  have "Query_chain_op cf (OpRawParams ps) = (\<lambda>q. (None, Query_add_raw_params ps q))"
    by (rule ext) simp
  with OpRawParams show ?thesis by (simp add: SQS_raw_params_def)
next
  case (OpFunctionScore fs)
  have "Query_chain_op cf (OpFunctionScore fs) = (\<lambda>q. (None, Query_add_function_score fs q))"
    by (rule ext) simp
  with OpFunctionScore show ?thesis by (simp add: SQS_function_score_def)
next
  case (OpFacet field kw)
  have "Query_chain_op cf (OpFacet field kw) = (\<lambda>q. (None, Query_add_term_facet field kw q))"
    by (rule ext) simp
  with OpFacet show ?thesis by (simp add: SQS_facet_def)
next
  case (OpFacetFilter field flt)
  have "Query_chain_op cf (OpFacetFilter field flt) = Query_add_term_facet_filter field flt"
    by (rule ext) simp
  with OpFacetFilter show ?thesis by (simp add: SQS_facet_filter_def)
next
  case (OpSuggest t f m n)
  have "Query_chain_op cf (OpSuggest t f m n) = (\<lambda>q. (None, Query_add_suggestion t f m n q))"
    by (rule ext) simp
  with OpSuggest show ?thesis by (simp add: SQS_suggest_def)
next
  case (OpMlt d fl kw)
  have "Query_chain_op cf (OpMlt d fl kw) = (\<lambda>q. (None, Query_mlt d fl kw q))"
    by (rule ext) simp
  with OpMlt show ?thesis by (simp add: SQS_mlt_def)
qed

lemma chain_op_step:
  assumes "SQS_chain_op cf op r w = (Inr s, w1)"
  shows "s = r\<lparr>result_cache := [], result_count := None\<rparr>"
    and "w1 = w\<lparr>heap := (heap w)(query_ref r := snd (Query_chain_op cf op (heap w (query_ref r))))\<rparr>"
  using assms unfolding SQS_chain_op_chain chain_result
  by (auto split: option.splits)

lemma filter_loop_effect:
  "fst (filter_loop kwargs terms) = None \<Longrightarrow>
   \<exists>fs. list_all2 (\<lambda>kv f. filter_query (fst kv) (snd kv) = Inr f) kwargs fs \<and>
        snd (filter_loop kwargs terms) = terms @ fs"
proof (induction kwargs arbitrary: terms)
  case Nil
  then show ?case by simp
next
  case (Cons kv kwargs)
  obtain key val where kv: "kv = (key, val)" by (cases kv)
  from Cons.prems kv obtain fq where fq: "filter_query key val = Inr fq"
    by (auto split: sum.splits)
  with Cons.prems kv have ok: "fst (filter_loop kwargs (terms @ [fq])) = None" by simp
  from Cons.IH[OF ok] obtain fs where
    fs: "list_all2 (\<lambda>kv f. filter_query (fst kv) (snd kv) = Inr f) kwargs fs"
      "snd (filter_loop kwargs (terms @ [fq])) = (terms @ [fq]) @ fs"
    by blast
  have "list_all2 (\<lambda>kv f. filter_query (fst kv) (snd kv) = Inr f) (kv # kwargs) (fq # fs)"
    using fs(1) fq kv by simp
  moreover have "snd (filter_loop (kv # kwargs) terms) = terms @ (fq # fs)"
    using fs(2) fq kv by simp
  ultimately show ?case by blast
qed

lemma sort_loop_effect:
  "sort_loop args = Inr srt \<Longrightarrow>
   list_all2 (\<lambda>a r. \<exists>field. a = PStr field \<and>
                 r = (case field of
                        c # cs \<Rightarrow> if c = CHR ''-'' then PDict [(cs, PStr ''desc'')] else PStr field
                      | [] \<Rightarrow> PStr field)) args srt"
proof (induction args arbitrary: srt rule: sort_loop.induct)
  case 1
  then show ?case by simp
next
  case (2 field args)
  from "2.prems" obtain rest where rest: "sort_loop args = Inr rest"
    by (auto simp add: bind_err_def split: sum.splits)
  with "2.prems" have srt: "srt = (case field of
                        c # cs \<Rightarrow> if c = CHR ''-'' then PDict [(cs, PStr ''desc'')] else PStr field
                      | [] \<Rightarrow> PStr field) # rest"
    by (auto simp add: bind_err_def)
  from "2.IH"[OF rest] show ?case unfolding srt by simp
qed simp_all

lemma facet_filter_loop_effect:
  "fst (facet_filter_loop flt fc) = None \<Longrightarrow>
   \<exists>fs. list_all2 (\<lambda>kv f. \<exists>fld operator. split_key (fst kv) = Inr (fld, operator) \<and>
                      f = PDict [(if operator = Some ''in'' \<or> is_list (snd kv)
                                  then ''terms'' else ''term'', PDict [(fld, snd kv)])]) flt fs \<and>
        snd (facet_filter_loop flt fc) =
          (if flt = [] then fc
           else fc\<lparr>f_filter := Some ((case f_filter fc of None \<Rightarrow> [] | Some xs \<Rightarrow> xs) @ fs)\<rparr>)"
proof (induction flt arbitrary: fc)
  case Nil
  then show ?case by simp
next
  case (Cons kv flt)
  obtain key val where kv: "kv = (key, val)" by (cases kv)
  from Cons.prems kv obtain fld operator where sk: "split_key key = Inr (fld, operator)"
    by (auto split: sum.splits)
  define ands where "ands = (case f_filter fc of None \<Rightarrow> [] | Some xs \<Rightarrow> xs)"
  define x where "x = PDict [(if operator = Some ''in'' \<or> is_list val then ''terms'' else ''term'',
                             PDict [(fld, val)])]"
  define fc1 where "fc1 = fc\<lparr>f_filter := Some (ands @ [x])\<rparr>"
  have eq: "facet_filter_loop (kv # flt) fc = facet_filter_loop flt fc1"
    using kv sk by (simp add: Let_def fc1_def ands_def x_def)
  with Cons.prems have ok: "fst (facet_filter_loop flt fc1) = None" by simp
  from Cons.IH[OF ok] obtain fs where
    fs: "list_all2 (\<lambda>kv f. \<exists>fld operator. split_key (fst kv) = Inr (fld, operator) \<and>
                      f = PDict [(if operator = Some ''in'' \<or> is_list (snd kv)
                                  then ''terms'' else ''term'', PDict [(fld, snd kv)])]) flt fs"
      "snd (facet_filter_loop flt fc1) =
          (if flt = [] then fc1
           else fc1\<lparr>f_filter := Some ((case f_filter fc1 of None \<Rightarrow> [] | Some xs \<Rightarrow> xs) @ fs)\<rparr>)"
    by blast
  have l: "list_all2 (\<lambda>kv f. \<exists>fld operator. split_key (fst kv) = Inr (fld, operator) \<and>
                      f = PDict [(if operator = Some ''in'' \<or> is_list (snd kv)
                                  then ''terms'' else ''term'', PDict [(fld, snd kv)])])
             (kv # flt) (x # fs)"
    using fs(1) kv sk by (simp add: x_def)
  have "flt = [] \<Longrightarrow> fs = []" using fs(1) by simp
  then have "snd (facet_filter_loop flt fc1) = fc\<lparr>f_filter := Some (ands @ (x # fs))\<rparr>"
    using fs(2) by (cases "flt = []") (simp_all add: fc1_def)
  with eq l show ?case
    unfolding ands_def by (intro exI[of _ "x # fs"]) simp
qed

text \<open>What each chain method does to the Query it is given, when it does not raise.\<close>

lemma query_chain_op_effect:
  assumes ok: "fst (Query_chain_op cf op q) = None"
  shows
    "(\<forall>content search_fields. op = OpSearch content search_fields \<longrightarrow>
        (snd (Query_chain_op cf op q)) = q\<lparr>search_terms := Some
                 (if search_fields \<noteq> PNone then
                    PDict [(''multi_match'',
                            PDict [(''query'', content), (''fields'', search_fields),
                                   (''lenient'', PBool True)])]
                  else PDict [(''match'', PDict [(''_all'', content)])])\<rparr>) \<and>
     (\<forall>kwargs. op = OpFilterAnd kwargs \<or> (op = OpFilter kwargs \<and> DEFAULT_FILTER cf = ''AND'') \<longrightarrow>
        (\<exists>fs. list_all2 (\<lambda>kv f. filter_query (fst kv) (snd kv) = Inr f) kwargs fs \<and>
           (snd (Query_chain_op cf op q)) = q\<lparr>filter_and_terms :=
                    Some ((case filter_and_terms q of None \<Rightarrow> [] | Some xs \<Rightarrow> xs) @ fs)\<rparr>)) \<and>
     (\<forall>kwargs. op = OpFilterOr kwargs \<or> (op = OpFilter kwargs \<and> DEFAULT_FILTER cf \<noteq> ''AND'') \<longrightarrow>
        (\<exists>fs. list_all2 (\<lambda>kv f. filter_query (fst kv) (snd kv) = Inr f) kwargs fs \<and>
           (snd (Query_chain_op cf op q)) = q\<lparr>filter_or_terms :=
                    Some ((case filter_or_terms q of None \<Rightarrow> [] | Some xs \<Rightarrow> xs) @ fs)\<rparr>)) \<and>
     (\<forall>flds. op = OpOnly flds \<longrightarrow>
        (snd (Query_chain_op cf op q)) = q\<lparr>params := AList.update ''fields'' (PTuple flds) (params q)\<rparr>) \<and>
     (\<forall>args. op = OpSort args \<longrightarrow>
        (\<exists>srt. list_all2 (\<lambda>a r. \<exists>field. a = PStr field \<and>
                        r = (case field of
                               c # cs \<Rightarrow> if c = CHR ''-'' then PDict [(cs, PStr ''desc'')]
                                         else PStr field
                             | [] \<Rightarrow> PStr field)) args srt \<and>
           (snd (Query_chain_op cf op q)) = q\<lparr>sort_q := Some srt\<rparr>)) \<and>
     (\<forall>rq. op = OpRawQuery rq \<longrightarrow> (snd (Query_chain_op cf op q)) = q\<lparr>raw_query := rq\<rparr>) \<and>
     (\<forall>ps. op = OpRawParams ps \<longrightarrow> (snd (Query_chain_op cf op q)) = q\<lparr>raw_params := ps\<rparr>) \<and>
     (\<forall>fs. op = OpFunctionScore fs \<longrightarrow> (snd (Query_chain_op cf op q)) = q\<lparr>function_score := fs\<rparr>) \<and>
     (\<forall>field kwargs. op = OpFacet field kwargs \<longrightarrow>
        (snd (Query_chain_op cf op q)) = q\<lparr>facets := Some
                 (let fc = \<lparr> f_terms = fold (\<lambda>(k, v). AList.update k v) kwargs
                                        [(''field'', PStr field)],
                             f_filter = None \<rparr>
                  in case facets q of
                       None \<Rightarrow> [(field, fc)]
                     | Some fcs \<Rightarrow> AList.update field fc fcs)\<rparr>) \<and>
     (\<forall>field flt. op = OpFacetFilter field flt \<longrightarrow>
        (\<exists>fs. list_all2 (\<lambda>kv f. \<exists>fld operator. split_key (fst kv) = Inr (fld, operator) \<and>
                         f = PDict [(if operator = Some ''in'' \<or> is_list (snd kv)
                                     then ''terms'' else ''term'', PDict [(fld, snd kv)])]) flt fs \<and>
           (snd (Query_chain_op cf op q)) = (let fresh = \<lparr> f_terms = [(''field'', PStr field)], f_filter = None \<rparr>;
                     fcs = (case facets q of
                              None \<Rightarrow> [(field, fresh)]
                            | Some old \<Rightarrow>
                                if map_of old field = None then AList.update field fresh old
                                else old);
                     fc = the (map_of fcs field);
                     ands = (case f_filter fc of None \<Rightarrow> [] | Some xs \<Rightarrow> xs)
                 in q\<lparr>facets := Some (AList.update field
                                         (if flt = [] then fc
                                          else fc\<lparr>f_filter := Some (ands @ fs)\<rparr>) fcs)\<rparr>))) \<and>
     (\<forall>suggest_text suggest_field suggest_mode suggest_size.
        op = OpSuggest suggest_text suggest_field suggest_mode suggest_size \<longrightarrow>
        (snd (Query_chain_op cf op q)) = q\<lparr>params :=
                 AList.update ''suggest_size'' suggest_size
                   (AList.update ''suggest_mode'' suggest_mode
                     (AList.update ''suggest_field'' suggest_field
                       (AList.update ''suggest_text'' suggest_text (params q))))\<rparr>) \<and>
     (\<forall>docid flds kwargs. op = OpMlt docid flds kwargs \<longrightarrow>
        (snd (Query_chain_op cf op q)) = q\<lparr>mlt_query := True, mlt_doc := docid, mlt_fields := flds,
                 mlt_options := kwargs\<rparr>)"
proof (cases op)
  case (OpSearch content search_fields)
  then show ?thesis by (simp add: Query_add_search_query_def)
next
  case (OpFilter kwargs)
  show ?thesis
  proof (cases "DEFAULT_FILTER cf = ''AND''")
    case True
    with ok OpFilter have "fst (filter_loop kwargs
        (case filter_and_terms q of None \<Rightarrow> [] | Some xs \<Rightarrow> xs)) = None"
      by (simp add: Query_add_filter_and_def Let_def split_beta)
    from filter_loop_effect[OF this] True OpFilter show ?thesis
      by (auto simp add: Query_add_filter_and_def Let_def split_beta)
  next
    case False
    with ok OpFilter have "fst (filter_loop kwargs
        (case filter_or_terms q of None \<Rightarrow> [] | Some xs \<Rightarrow> xs)) = None"
      by (simp add: Query_add_filter_or_def Let_def split_beta)
    from filter_loop_effect[OF this] False OpFilter show ?thesis
      by (auto simp add: Query_add_filter_or_def Let_def split_beta)
  qed
next
  case (OpFilterAnd kwargs)
  with ok have "fst (filter_loop kwargs
      (case filter_and_terms q of None \<Rightarrow> [] | Some xs \<Rightarrow> xs)) = None"
    by (simp add: Query_add_filter_and_def Let_def split_beta)
  from filter_loop_effect[OF this] OpFilterAnd show ?thesis
    by (auto simp add: Query_add_filter_and_def Let_def split_beta)
next
  case (OpFilterOr kwargs)
  with ok have "fst (filter_loop kwargs
      (case filter_or_terms q of None \<Rightarrow> [] | Some xs \<Rightarrow> xs)) = None"
    by (simp add: Query_add_filter_or_def Let_def split_beta)
  from filter_loop_effect[OF this] OpFilterOr show ?thesis
    by (auto simp add: Query_add_filter_or_def Let_def split_beta)
next
  case (OpOnly flds)
  then show ?thesis by (simp add: Query_add_fields_def)
next
  case (OpSort args)
  with ok obtain srt where srt: "sort_loop args = Inr srt"
    by (auto simp add: Query_add_sort_def split: sum.splits)
  from sort_loop_effect[OF srt] srt OpSort show ?thesis
    by (auto simp add: Query_add_sort_def)
next
  case (OpRawQuery rq)
  then show ?thesis by (simp add: Query_add_raw_query_def)
next
  case (OpRawParams ps)
  then show ?thesis by (simp add: Query_add_raw_params_def)
next
  case (OpFunctionScore fs)
  then show ?thesis by (simp add: Query_add_function_score_def)
next
  case (OpFacet field kwargs)
  then show ?thesis by (simp add: Query_add_term_facet_def dict_merge_def Let_def)
next
  case (OpFacetFilter field flt)
  define fresh where "fresh = \<lparr> f_terms = [(''field'', PStr field)], f_filter = None \<rparr>"
  define fcs where "fcs = (case facets q of
                         None \<Rightarrow> [(field, fresh)]
                       | Some old \<Rightarrow>
                           if map_of old field = None then AList.update field fresh old
                           else old)"
  define fc where "fc = the (map_of fcs field)"
  have q1: "(if facets q = None \<or> map_of (the (facets q)) field = None
             then Query_add_term_facet field [] q else q) = q\<lparr>facets := Some fcs\<rparr>"
    by (cases "facets q") (auto simp add: Query_add_term_facet_def dict_merge_def fcs_def fresh_def)
  have res: "Query_add_term_facet_filter field flt q =
             (fst (facet_filter_loop flt fc),
              q\<lparr>facets := Some (AList.update field (snd (facet_filter_loop flt fc)) fcs)\<rparr>)"
    unfolding Query_add_term_facet_filter_def q1 by (simp add: Let_def split_beta fc_def)
  with ok OpFacetFilter have "fst (facet_filter_loop flt fc) = None" by simp
  from facet_filter_loop_effect[OF this] obtain fs where
    fs: "list_all2 (\<lambda>kv f. \<exists>fld operator. split_key (fst kv) = Inr (fld, operator) \<and>
                      f = PDict [(if operator = Some ''in'' \<or> is_list (snd kv)
                                  then ''terms'' else ''term'', PDict [(fld, snd kv)])]) flt fs"
    and sn: "snd (facet_filter_loop flt fc) =
          (if flt = [] then fc
           else fc\<lparr>f_filter := Some ((case f_filter fc of None \<Rightarrow> [] | Some xs \<Rightarrow> xs) @ fs)\<rparr>)"
    by blast
  have eff: "snd (Query_chain_op cf op q) =
        q\<lparr>facets := Some (AList.update field
                 (if flt = [] then fc
                  else fc\<lparr>f_filter := Some ((case f_filter fc of None \<Rightarrow> [] | Some xs \<Rightarrow> xs) @ fs)\<rparr>)
                 fcs)\<rparr>"
    using res sn OpFacetFilter by simp
  have K: "(\<exists>fs. list_all2 (\<lambda>kv f. \<exists>fld operator. split_key (fst kv) = Inr (fld, operator) \<and>
                    f = PDict [(if operator = Some ''in'' \<or> is_list (snd kv)
                                then ''terms'' else ''term'', PDict [(fld, snd kv)])]) flt fs \<and>
      snd (Query_chain_op cf op q) = (let fresh = \<lparr> f_terms = [(''field'', PStr field)], f_filter = None \<rparr>;
                fcs = (case facets q of
                         None \<Rightarrow> [(field, fresh)]
                       | Some old \<Rightarrow>
                           if map_of old field = None then AList.update field fresh old
                           else old);
                fc = the (map_of fcs field);
                ands = (case f_filter fc of None \<Rightarrow> [] | Some xs \<Rightarrow> xs)
            in q\<lparr>facets := Some (AList.update field
                                    (if flt = [] then fc
                                     else fc\<lparr>f_filter := Some (ands @ fs)\<rparr>) fcs)\<rparr>))"
    unfolding eff Let_def fc_def fcs_def fresh_def using fs by blast
  show ?thesis
    using K unfolding OpFacetFilter by simp
next
  case (OpSuggest t f m n)
  then show ?thesis by (simp add: Query_add_suggestion_def)
next
  case (OpMlt docid flds kwargs)
  then show ?thesis by (simp add: Query_mlt_def)
qed

lemma chain_op_ok:
  assumes "SQS_chain_op cf op r w = (Inr s, w1)"
  shows "fst (Query_chain_op cf op (heap w (query_ref r))) = None"
  using assms unfolding SQS_chain_op_chain chain_result
  by (auto split: option.splits)

text \<open>
  C7. Every chain method that returns gives back a result set with an empty cache that
  refers to the receiver's own Query object; no request is sent and no other object of
  the store changes. The shared Query is mutated, method by method, as follows:
  \<^verbatim>\<open>search\<close> sets the search terms, \<^verbatim>\<open>filter_and\<close> and \<^verbatim>\<open>filter_or\<close> (and
  \<^verbatim>\<open>filter\<close>, by the default filter setting) append the filters of the criteria to the
  must or should list, \<^verbatim>\<open>only\<close> sets the \<^verbatim>\<open>fields\<close> request parameter,
  \<^verbatim>\<open>sort\<close> sets the sort list, \<^verbatim>\<open>raw_query\<close>, \<^verbatim>\<open>raw_params\<close> and
  \<^verbatim>\<open>function_score\<close> set their field, \<^verbatim>\<open>facet\<close> registers a terms facet,
  \<^verbatim>\<open>facet_filter\<close> appends to the filter of a facet it creates if needed,
  \<^verbatim>\<open>suggest\<close> sets the four suggestion parameters, and \<^verbatim>\<open>mlt\<close> switches the Query to
  similarity mode. So the receiver renders the same query as the result, and a second
  chain call on the same ancestor changes what the result of the first renders.
\<close>

theorem chain_op_shares_query_state:
  assumes first: "SQS_chain_op cf op r w = (Inr s, w1)"
    and second: "SQS_chain_op cf op' r w1 = (Inr s', w2)"
  shows "query_ref s = query_ref r \<and> result_cache s = [] \<and> result_count s = None \<and>
         heap w1 (query_ref r) = snd (Query_chain_op cf op (heap w (query_ref r))) \<and>
         SQS_show_query r w1 = SQS_show_query s w1 \<and>
         SQS_show_query r w1 =
           Query_build_query (snd (Query_chain_op cf op (heap w (query_ref r)))) \<and>
         query_ref s' = query_ref s \<and>
         SQS_show_query s w2 = SQS_show_query s' w2 \<and>
         SQS_show_query s w2 =
           Query_build_query
             (snd (Query_chain_op cf op' (snd (Query_chain_op cf op (heap w (query_ref r)))))) \<and>
         calls w1 = calls w \<and>
         (\<forall>a. a \<noteq> query_ref r \<longrightarrow> heap w1 a = heap w a) \<and>
         (\<forall>content search_fields. op = OpSearch content search_fields \<longrightarrow>
            heap w1 (query_ref r) = (heap w (query_ref r))\<lparr>search_terms := Some
                     (if search_fields \<noteq> PNone then
                        PDict [(''multi_match'',
                                PDict [(''query'', content), (''fields'', search_fields),
                                       (''lenient'', PBool True)])]
                      else PDict [(''match'', PDict [(''_all'', content)])])\<rparr>) \<and>
         (\<forall>kwargs. op = OpFilterAnd kwargs \<or> (op = OpFilter kwargs \<and> DEFAULT_FILTER cf = ''AND'') \<longrightarrow>
            (\<exists>fs. list_all2 (\<lambda>kv f. filter_query (fst kv) (snd kv) = Inr f) kwargs fs \<and>
               heap w1 (query_ref r) = (heap w (query_ref r))\<lparr>filter_and_terms :=
                        Some ((case filter_and_terms (heap w (query_ref r)) of None \<Rightarrow> [] | Some xs \<Rightarrow> xs) @ fs)\<rparr>)) \<and>
         (\<forall>kwargs. op = OpFilterOr kwargs \<or> (op = OpFilter kwargs \<and> DEFAULT_FILTER cf \<noteq> ''AND'') \<longrightarrow>
            (\<exists>fs. list_all2 (\<lambda>kv f. filter_query (fst kv) (snd kv) = Inr f) kwargs fs \<and>
               heap w1 (query_ref r) = (heap w (query_ref r))\<lparr>filter_or_terms :=
                        Some ((case filter_or_terms (heap w (query_ref r)) of None \<Rightarrow> [] | Some xs \<Rightarrow> xs) @ fs)\<rparr>)) \<and>
         (\<forall>flds. op = OpOnly flds \<longrightarrow>
            heap w1 (query_ref r) = (heap w (query_ref r))\<lparr>params := AList.update ''fields'' (PTuple flds) (params (heap w (query_ref r)))\<rparr>) \<and>
         (\<forall>args. op = OpSort args \<longrightarrow>
            (\<exists>srt. list_all2 (\<lambda>a r. \<exists>field. a = PStr field \<and>
                            r = (case field of
                                   c # cs \<Rightarrow> if c = CHR ''-'' then PDict [(cs, PStr ''desc'')]
                                             else PStr field
                                 | [] \<Rightarrow> PStr field)) args srt \<and>
               heap w1 (query_ref r) = (heap w (query_ref r))\<lparr>sort_q := Some srt\<rparr>)) \<and>
         (\<forall>rq. op = OpRawQuery rq \<longrightarrow> heap w1 (query_ref r) = (heap w (query_ref r))\<lparr>raw_query := rq\<rparr>) \<and>
         (\<forall>ps. op = OpRawParams ps \<longrightarrow> heap w1 (query_ref r) = (heap w (query_ref r))\<lparr>raw_params := ps\<rparr>) \<and>
         (\<forall>fs. op = OpFunctionScore fs \<longrightarrow> heap w1 (query_ref r) = (heap w (query_ref r))\<lparr>function_score := fs\<rparr>) \<and>
         (\<forall>field kwargs. op = OpFacet field kwargs \<longrightarrow>
            heap w1 (query_ref r) = (heap w (query_ref r))\<lparr>facets := Some
                     (let fc = \<lparr> f_terms = fold (\<lambda>(k, v). AList.update k v) kwargs
                                            [(''field'', PStr field)],
                                 f_filter = None \<rparr>
                      in case facets (heap w (query_ref r)) of
                           None \<Rightarrow> [(field, fc)]
                         | Some fcs \<Rightarrow> AList.update field fc fcs)\<rparr>) \<and>
         (\<forall>field flt. op = OpFacetFilter field flt \<longrightarrow>
            (\<exists>fs. list_all2 (\<lambda>kv f. \<exists>fld operator. split_key (fst kv) = Inr (fld, operator) \<and>
                             f = PDict [(if operator = Some ''in'' \<or> is_list (snd kv)
                                         then ''terms'' else ''term'', PDict [(fld, snd kv)])]) flt fs \<and>
               heap w1 (query_ref r) = (let fresh = \<lparr> f_terms = [(''field'', PStr field)], f_filter = None \<rparr>;
                         fcs = (case facets (heap w (query_ref r)) of
                                  None \<Rightarrow> [(field, fresh)]
                                | Some old \<Rightarrow>
                                    if map_of old field = None then AList.update field fresh old
                                    else old);
                         fc = the (map_of fcs field);
                         ands = (case f_filter fc of None \<Rightarrow> [] | Some xs \<Rightarrow> xs)
                     in (heap w (query_ref r))\<lparr>facets := Some (AList.update field
                                             (if flt = [] then fc
                                              else fc\<lparr>f_filter := Some (ands @ fs)\<rparr>) fcs)\<rparr>))) \<and>
         (\<forall>suggest_text suggest_field suggest_mode suggest_size.
            op = OpSuggest suggest_text suggest_field suggest_mode suggest_size \<longrightarrow>
            heap w1 (query_ref r) = (heap w (query_ref r))\<lparr>params :=
                     AList.update ''suggest_size'' suggest_size
                       (AList.update ''suggest_mode'' suggest_mode
                         (AList.update ''suggest_field'' suggest_field
                           (AList.update ''suggest_text'' suggest_text (params (heap w (query_ref r))))))\<rparr>) \<and>
         (\<forall>docid flds kwargs. op = OpMlt docid flds kwargs \<longrightarrow>
            heap w1 (query_ref r) = (heap w (query_ref r))\<lparr>mlt_query := True, mlt_doc := docid, mlt_fields := flds,
                     mlt_options := kwargs\<rparr>)"
proof -
  have old: "query_ref s = query_ref r \<and> result_cache s = [] \<and> result_count s = None \<and>
         heap w1 (query_ref r) = snd (Query_chain_op cf op (heap w (query_ref r))) \<and>
         SQS_show_query r w1 = SQS_show_query s w1 \<and>
         SQS_show_query r w1 =
           Query_build_query (snd (Query_chain_op cf op (heap w (query_ref r)))) \<and>
         query_ref s' = query_ref s \<and>
         SQS_show_query s w2 = SQS_show_query s' w2 \<and>
         SQS_show_query s w2 =
           Query_build_query
             (snd (Query_chain_op cf op' (snd (Query_chain_op cf op (heap w (query_ref r)))))) \<and>
         calls w1 = calls w \<and>
         (\<forall>a. a \<noteq> query_ref r \<longrightarrow> heap w1 a = heap w a)"
    using chain_op_step[OF first] chain_op_step[OF second]
    by (simp add: SQS_show_query_def)
  then have h: "heap w1 (query_ref r) = snd (Query_chain_op cf op (heap w (query_ref r)))"
    by blast
  note eff = query_chain_op_effect[OF chain_op_ok[OF first], folded h]
  from conjI[OF old eff] show ?thesis unfolding conj_assoc .
qed

theorem chain_op_shares_query_state_witness:
  "SQS_show_query example_sqs
     (snd (SQS_chain_op example_conf (OpSearch (PStr ''shoes'') PNone) example_sqs example_world))
   = Inr (PDict [(''query'', PDict [(''match'', PDict [(''_all'', PStr ''shoes'')])])]) \<and>
   SQS_show_query
     (example_sqs\<lparr>result_cache := [], result_count := None\<rparr>)
     (snd (SQS_chain_op example_conf (OpFilterAnd [(''price__gte'', PInt 10)]) example_sqs
        (snd (SQS_chain_op example_conf (OpSearch (PStr ''shoes'') PNone) example_sqs
                example_world))))
   = Inr (PDict [(''query'', PDict [(''match'', PDict [(''_all'', PStr ''shoes'')])]),
                 (''filter'', PDict [(''bool'', PDict [(''must'',
                    PList [PDict [(''range'', PDict [(''price'', PDict [(''gte'', PInt 10)])])]])])])]) \<and>
   heap (snd (SQS_chain_op example_conf (OpSearch (PStr ''shoes'') PNone) example_sqs
                example_world)) (query_ref example_sqs)
   = (Query_init ''idx'' (PStr ''doc''))
       \<lparr>search_terms := Some (PDict [(''match'', PDict [(''_all'', PStr ''shoes'')])])\<rparr> \<and>
   heap (snd (SQS_chain_op example_conf (OpMlt (PStr ''7'') (PList [PStr ''title'']) [])
                example_sqs example_world)) (query_ref example_sqs)
   = (Query_init ''idx'' (PStr ''doc''))
       \<lparr>mlt_query := True, mlt_doc := PStr ''7'', mlt_fields := PList [PStr ''title''],
          mlt_options := []\<rparr>"
proof -
  let ?op = "OpSearch (PStr ''shoes'') PNone"
  let ?op' = "OpFilterAnd [(''price__gte'', PInt 10)]"
  let ?m = "OpMlt (PStr ''7'') (PList [PStr ''title'']) []"
  let ?s = "example_sqs\<lparr>result_cache := [], result_count := None\<rparr>"
  let ?w1 = "snd (SQS_chain_op example_conf ?op example_sqs example_world)"
  let ?w2 = "snd (SQS_chain_op example_conf ?op' example_sqs ?w1)"
  let ?v1 = "snd (SQS_chain_op example_conf ?m example_sqs example_world)"
  let ?v2 = "snd (SQS_chain_op example_conf ?m example_sqs ?v1)"
  have f1: "fst (SQS_chain_op example_conf ?op example_sqs example_world) = Inr ?s"
    by (simp add: SQS_chain_op_chain chain_result)
  have f2: "fst (SQS_chain_op example_conf ?op' example_sqs ?w1) = Inr ?s"
    unfolding SQS_chain_op_chain chain_result
    by (simp add: Query_add_filter_and_def filter_query_def split_key_def split_beta)
  have g1: "fst (SQS_chain_op example_conf ?m example_sqs example_world) = Inr ?s"
    by (simp add: SQS_chain_op_chain chain_result)
  have g2: "fst (SQS_chain_op example_conf ?m example_sqs ?v1) = Inr ?s"
    by (simp add: SQS_chain_op_chain chain_result)
  have first: "SQS_chain_op example_conf ?op example_sqs example_world = (Inr ?s, ?w1)"
    using f1 by (simp add: prod_eq_iff)
  have second: "SQS_chain_op example_conf ?op' example_sqs ?w1 = (Inr ?s, ?w2)"
    using f2 by (simp add: prod_eq_iff)
  have mfirst: "SQS_chain_op example_conf ?m example_sqs example_world = (Inr ?s, ?v1)"
    using g1 by (simp add: prod_eq_iff)
  have msecond: "SQS_chain_op example_conf ?m example_sqs ?v1 = (Inr ?s, ?v2)"
    using g2 by (simp add: prod_eq_iff)
  note t = chain_op_shares_query_state[OF first second]
  note u = chain_op_shares_query_state[OF mfirst msecond]
  have q0: "heap example_world (query_ref example_sqs) = Query_init ''idx'' (PStr ''doc'')"
    by (simp add: example_world_def example_sqs_def SQS_init_def empty_world_def)
  have r1: "Query_build_query (snd (Query_chain_op example_conf ?op (Query_init ''idx'' (PStr ''doc''))))
     = Inr (PDict [(''query'', PDict [(''match'', PDict [(''_all'', PStr ''shoes'')])])])"
    by code_simp
  have r2: "Query_build_query (snd (Query_chain_op example_conf ?op'
              (snd (Query_chain_op example_conf ?op (Query_init ''idx'' (PStr ''doc''))))))
     = Inr (PDict [(''query'', PDict [(''match'', PDict [(''_all'', PStr ''shoes'')])]),
                 (''filter'', PDict [(''bool'', PDict [(''must'',
                    PList [PDict [(''range'', PDict [(''price'', PDict [(''gte'', PInt 10)])])]])])])])"
    by code_simp
  from t have a: "SQS_show_query example_sqs ?w1 =
           Query_build_query (snd (Query_chain_op example_conf ?op
              (heap example_world (query_ref example_sqs))))" by blast
  from t have b: "SQS_show_query ?s ?w2 =
           Query_build_query (snd (Query_chain_op example_conf ?op'
             (snd (Query_chain_op example_conf ?op (heap example_world (query_ref example_sqs))))))"
    by blast
  from t have "\<forall>content search_fields. ?op = OpSearch content search_fields \<longrightarrow>
      heap ?w1 (query_ref example_sqs) = (heap example_world (query_ref example_sqs))
        \<lparr>search_terms := Some
            (if search_fields \<noteq> PNone then
               PDict [(''multi_match'',
                       PDict [(''query'', content), (''fields'', search_fields),
                              (''lenient'', PBool True)])]
             else PDict [(''match'', PDict [(''_all'', content)])])\<rparr>"
    by blast
  then have c: "heap ?w1 (query_ref example_sqs) = (Query_init ''idx'' (PStr ''doc''))
       \<lparr>search_terms := Some (PDict [(''match'', PDict [(''_all'', PStr ''shoes'')])])\<rparr>"
    unfolding q0 by simp
  from u have "\<forall>docid flds kwargs. ?m = OpMlt docid flds kwargs \<longrightarrow>
      heap ?v1 (query_ref example_sqs) = (heap example_world (query_ref example_sqs))
        \<lparr>mlt_query := True, mlt_doc := docid, mlt_fields := flds, mlt_options := kwargs\<rparr>"
    by blast
  then have d: "heap ?v1 (query_ref example_sqs) = (Query_init ''idx'' (PStr ''doc''))
       \<lparr>mlt_query := True, mlt_doc := PStr ''7'', mlt_fields := PList [PStr ''title''],
          mlt_options := []\<rparr>"
    unfolding q0 by simp
  show ?thesis
    using a b c d unfolding q0 r1 r2 by simp
qed


section \<open>Suggestions\<close>

lemma build_query_exec_fields:
  "Query_build_query (q\<lparr>params := ps, results_c := a, hit_count := b, facet_counts_c := c,
                         suggestions_c := d\<rparr>) = Query_build_query q"
  unfolding Query_build_query_def
  by (simp add: Let_def cong: if_cong)

lemma update_same: "map_of al k = Some v \<Longrightarrow> AList.update k v al = al"
  by (induction al) auto

lemma window_params_idem:
  "AList.update ''size'' s (AList.update ''from_'' f
     (AList.update ''size'' s (AList.update ''from_'' f ps)))
   = AList.update ''size'' s (AList.update ''from_'' f ps)"
proof -
  let ?ps = "AList.update ''size'' s (AList.update ''from_'' f ps)"
  have "map_of ?ps ''from_'' = Some f" by (simp add: update_conv')
  then have "AList.update ''from_'' f ?ps = ?ps" by (rule update_same)
  moreover have "map_of ?ps ''size'' = Some s" by (simp add: update_conv')
  then have "AList.update ''size'' s ?ps = ?ps" by (rule update_same)
  ultimately show ?thesis by simp
qed

text \<open>One call of get_suggestions against a backend whose replies carry no suggestion section.\<close>

lemma get_suggestions_step:
  assumes nosug: "\<forall>n. \<exists>r. bk_search bk n (SearchCall (index_q (heap w (query_ref s))) (doc_type_q (heap w (query_ref s))) body (AList.update ''size'' (PInt (size_q (heap w (query_ref s)))) (AList.update ''from_'' (PInt (offset (heap w (query_ref s)))) (params (heap w (query_ref s)))))) = Inr r
                    \<and> r_suggest r = None"
    and body: "Query_build_query (heap w (query_ref s)) = Inr body"
    and unset: "suggestions_c (heap w (query_ref s)) = None"
  shows "fst (SQS_get_suggestions bk s w) = Inr None"
    and "calls (snd (SQS_get_suggestions bk s w)) = calls w @ [SearchCall (index_q (heap w (query_ref s))) (doc_type_q (heap w (query_ref s))) body (AList.update ''size'' (PInt (size_q (heap w (query_ref s)))) (AList.update ''from_'' (PInt (offset (heap w (query_ref s)))) (params (heap w (query_ref s)))))]"
    and "Query_build_query (heap (snd (SQS_get_suggestions bk s w)) (query_ref s)) = Inr body"
    and "suggestions_c (heap (snd (SQS_get_suggestions bk s w)) (query_ref s)) = None"
    and "params (heap (snd (SQS_get_suggestions bk s w)) (query_ref s)) = (AList.update ''size'' (PInt (size_q (heap w (query_ref s)))) (AList.update ''from_'' (PInt (offset (heap w (query_ref s)))) (params (heap w (query_ref s)))))"
    and "index_q (heap (snd (SQS_get_suggestions bk s w)) (query_ref s)) = index_q (heap w (query_ref s))"
    and "doc_type_q (heap (snd (SQS_get_suggestions bk s w)) (query_ref s)) = doc_type_q (heap w (query_ref s))"
    and "size_q (heap (snd (SQS_get_suggestions bk s w)) (query_ref s)) = size_q (heap w (query_ref s))"
    and "offset (heap (snd (SQS_get_suggestions bk s w)) (query_ref s)) = offset (heap w (query_ref s))"
proof -
  define q where "q = heap w (query_ref s)"
  define ps where "ps = AList.update ''size'' (PInt (size_q q))
                          (AList.update ''from_'' (PInt (offset q)) (params q))"
  let ?c = "SearchCall (index_q q) (doc_type_q q) body ps"
  from nosug obtain r where r: "bk_search bk (length (calls w)) ?c = Inr r" "r_suggest r = None"
    unfolding q_def ps_def by blast
  let ?q2 = "q\<lparr>params := ps, results_c := Some (r_hits r), hit_count := Some (r_total r),
               facet_counts_c := Some (process_facets (r_facets r)), suggestions_c := None\<rparr>"
  have run: "Query_run bk q (calls w) = (Inr (), ?q2, calls w @ [?c])"
    using body r unfolding q_def[symmetric]
    by (simp add: Query_run_def Let_def ps_def store_results_def process_suggestions_def)
  have gs: "Query_get_suggestions bk q (calls w) = (Inr None, ?q2, calls w @ [?c])"
    using unset run unfolding q_def[symmetric] by (simp add: Query_get_suggestions_def)
  have res: "SQS_get_suggestions bk s w =
             (Inr None, w\<lparr>heap := (heap w)(query_ref s := ?q2), calls := calls w @ [?c]\<rparr>)"
    using gs by (simp add: SQS_get_suggestions_def q_def)
  have h: "heap (snd (SQS_get_suggestions bk s w)) (query_ref s) = ?q2" using res by simp
  show "fst (SQS_get_suggestions bk s w) = Inr None" using res by simp
  show "calls (snd (SQS_get_suggestions bk s w)) = calls w @ [SearchCall (index_q (heap w (query_ref s))) (doc_type_q (heap w (query_ref s))) body (AList.update ''size'' (PInt (size_q (heap w (query_ref s)))) (AList.update ''from_'' (PInt (offset (heap w (query_ref s)))) (params (heap w (query_ref s)))))]"
    using res by (simp add: q_def ps_def)
  show "Query_build_query (heap (snd (SQS_get_suggestions bk s w)) (query_ref s)) = Inr body"
    unfolding h using body build_query_exec_fields[where q = q] by (simp add: q_def)
  show "suggestions_c (heap (snd (SQS_get_suggestions bk s w)) (query_ref s)) = None" unfolding h by simp
  show "params (heap (snd (SQS_get_suggestions bk s w)) (query_ref s)) = (AList.update ''size'' (PInt (size_q (heap w (query_ref s)))) (AList.update ''from_'' (PInt (offset (heap w (query_ref s)))) (params (heap w (query_ref s)))))" unfolding h by (simp add: ps_def q_def)
  show "index_q (heap (snd (SQS_get_suggestions bk s w)) (query_ref s)) = index_q (heap w (query_ref s))" unfolding h by (simp add: q_def)
  show "doc_type_q (heap (snd (SQS_get_suggestions bk s w)) (query_ref s)) = doc_type_q (heap w (query_ref s))" unfolding h by (simp add: q_def)
  show "size_q (heap (snd (SQS_get_suggestions bk s w)) (query_ref s)) = size_q (heap w (query_ref s))" unfolding h by (simp add: q_def)
  show "offset (heap (snd (SQS_get_suggestions bk s w)) (query_ref s)) = offset (heap w (query_ref s))" unfolding h by (simp add: q_def)
qed

text \<open>
  C10. When the replies of the backend carry no suggestion section, \<^verbatim>\<open>get_suggestions\<close>
  returns None and leaves the cached suggestions unset, so the call after any number
  \<open>k\<close> of earlier calls sends the search request again: \<open>k\<close> calls have sent \<open>k\<close>
  requests.
\<close>

theorem get_suggestions_reruns_query:
  assumes nosug:
      "\<forall>n. \<exists>r. bk_search bk n
               (SearchCall (index_q (heap w (query_ref s))) (doc_type_q (heap w (query_ref s))) body
                  (AList.update ''size'' (PInt (size_q (heap w (query_ref s))))
                     (AList.update ''from_'' (PInt (offset (heap w (query_ref s))))
                        (params (heap w (query_ref s)))))) = Inr r
             \<and> r_suggest r = None"
    and body: "Query_build_query (heap w (query_ref s)) = Inr body"
    and unset: "suggestions_c (heap w (query_ref s)) = None"
  shows
    "fst (SQS_get_suggestions bk s (((\<lambda>v. snd (SQS_get_suggestions bk s v)) ^^ k) w)) = Inr None \<and>
     suggestions_c (heap (((\<lambda>v. snd (SQS_get_suggestions bk s v)) ^^ Suc k) w) (query_ref s)) = None \<and>
     calls (((\<lambda>v. snd (SQS_get_suggestions bk s v)) ^^ k) w) =
       calls w @ replicate k
         (SearchCall (index_q (heap w (query_ref s))) (doc_type_q (heap w (query_ref s))) body
            (AList.update ''size'' (PInt (size_q (heap w (query_ref s))))
               (AList.update ''from_'' (PInt (offset (heap w (query_ref s))))
                  (params (heap w (query_ref s))))))"
proof -
  define q where "q = heap w (query_ref s)"
  define ps where "ps = AList.update ''size'' (PInt (size_q q))
                          (AList.update ''from_'' (PInt (offset q)) (params q))"
  define c where "c = SearchCall (index_q q) (doc_type_q q) body ps"
  define step where "step = (\<lambda>v::world. snd (SQS_get_suggestions bk s v))"
  define inv where "inv = (\<lambda>v::world. Query_build_query (heap v (query_ref s)) = Inr body \<and>
      suggestions_c (heap v (query_ref s)) = None \<and>
      index_q (heap v (query_ref s)) = index_q q \<and>
      doc_type_q (heap v (query_ref s)) = doc_type_q q \<and>
      size_q (heap v (query_ref s)) = size_q q \<and>
      offset (heap v (query_ref s)) = offset q \<and>
      AList.update ''size'' (PInt (size_q q))
        (AList.update ''from_'' (PInt (offset q)) (params (heap v (query_ref s)))) = ps)"
  have nosug': "\<forall>n. \<exists>r. bk_search bk n c = Inr r \<and> r_suggest r = None"
    using nosug unfolding c_def ps_def q_def by simp
  have inv0: "inv w"
    using body unset unfolding inv_def q_def ps_def by simp
  have one: "\<And>v. inv v \<Longrightarrow>
       fst (SQS_get_suggestions bk s v) = Inr None \<and> calls (step v) = calls v @ [c] \<and> inv (step v)"
  proof -
    fix v assume iv: "inv v"
    then have eqs: "index_q (heap v (query_ref s)) = index_q q"
      "doc_type_q (heap v (query_ref s)) = doc_type_q q"
      "size_q (heap v (query_ref s)) = size_q q" "offset (heap v (query_ref s)) = offset q"
      "AList.update ''size'' (PInt (size_q q))
        (AList.update ''from_'' (PInt (offset q)) (params (heap v (query_ref s)))) = ps"
      "Query_build_query (heap v (query_ref s)) = Inr body"
      "suggestions_c (heap v (query_ref s)) = None"
      unfolding inv_def by simp_all
    have ns: "\<forall>n. \<exists>r. bk_search bk n
               (SearchCall (index_q (heap v (query_ref s))) (doc_type_q (heap v (query_ref s))) body
                  (AList.update ''size'' (PInt (size_q (heap v (query_ref s))))
                     (AList.update ''from_'' (PInt (offset (heap v (query_ref s))))
                        (params (heap v (query_ref s)))))) = Inr r
             \<and> r_suggest r = None"
      using nosug' unfolding eqs c_def by simp
    note st = get_suggestions_step[OF ns eqs(6) eqs(7), unfolded eqs, folded c_def]
    have "AList.update ''size'' (PInt (size_q q))
           (AList.update ''from_'' (PInt (offset q)) ps) = ps"
      unfolding ps_def by (rule window_params_idem)
    with st have "inv (step v)" unfolding inv_def step_def by simp
    moreover have "calls (step v) = calls v @ [c]" using st(2) unfolding step_def by simp
    ultimately show "fst (SQS_get_suggestions bk s v) = Inr None \<and> calls (step v) = calls v @ [c]
        \<and> inv (step v)" using st(1) by simp
  qed
  have all: "inv ((step ^^ k) w) \<and> calls ((step ^^ k) w) = calls w @ replicate k c"
  proof (induction k)
    case 0
    show ?case using inv0 by simp
  next
    case (Suc k)
    from one[of "(step ^^ k) w"] Suc
    show ?case by (simp add: replicate_append_same)
  qed
  from one[of "(step ^^ k) w"] all
  have "fst (SQS_get_suggestions bk s ((step ^^ k) w)) = Inr None"
    and "inv (step ((step ^^ k) w))" by simp_all
  then have "fst (SQS_get_suggestions bk s ((step ^^ k) w)) = Inr None"
    and "suggestions_c (heap ((step ^^ Suc k) w) (query_ref s)) = None"
    unfolding inv_def by simp_all
  with all show ?thesis
    unfolding step_def c_def ps_def q_def by simp
qed

theorem get_suggestions_reruns_query_witness:
  "fst (SQS_get_suggestions (paged_backend [example_hit 0, example_hit 1]) example_sqs
         (((\<lambda>v. snd (SQS_get_suggestions (paged_backend [example_hit 0, example_hit 1])
                       example_sqs v)) ^^ 2) example_world)) = Inr None \<and>
   calls (((\<lambda>v. snd (SQS_get_suggestions (paged_backend [example_hit 0, example_hit 1])
                       example_sqs v)) ^^ 2) example_world) =
     [SearchCall ''idx'' (PStr ''doc'') (PDict [(''query'', PDict [(''match_all'', PDict [])])])
        [(''from_'', PInt 0), (''size'', PInt 20)],
      SearchCall ''idx'' (PStr ''doc'') (PDict [(''query'', PDict [(''match_all'', PDict [])])])
        [(''from_'', PInt 0), (''size'', PInt 20)]]"
proof -
  let ?bk = "paged_backend [example_hit 0, example_hit 1]"
  let ?body = "PDict [(''query'', PDict [(''match_all'', PDict [])])]"
  have q0: "heap example_world (query_ref example_sqs) = Query_init ''idx'' (PStr ''doc'')"
    by (simp add: example_world_def example_sqs_def SQS_init_def empty_world_def)
  have c0: "calls example_world = []"
    by (simp add: example_world_def SQS_init_def empty_world_def)
  have f: "index_q (Query_init ''idx'' (PStr ''doc'')) = ''idx''"
    "doc_type_q (Query_init ''idx'' (PStr ''doc'')) = PStr ''doc''"
    "AList.update ''size'' (PInt (size_q (Query_init ''idx'' (PStr ''doc''))))
       (AList.update ''from_'' (PInt (offset (Query_init ''idx'' (PStr ''doc''))))
          (params (Query_init ''idx'' (PStr ''doc'')))) = [(''from_'', PInt 0), (''size'', PInt 20)]"
    "suggestions_c (Query_init ''idx'' (PStr ''doc'')) = None"
    by (simp_all add: Query_init_def)
  have body: "Query_build_query (heap example_world (query_ref example_sqs)) = Inr ?body"
    unfolding q0 by code_simp
  have unset: "suggestions_c (heap example_world (query_ref example_sqs)) = None"
    unfolding q0 by (rule f(4))
  have nosug: "\<forall>n. \<exists>r. bk_search ?bk n
               (SearchCall (index_q (heap example_world (query_ref example_sqs)))
                  (doc_type_q (heap example_world (query_ref example_sqs))) ?body
                  (AList.update ''size'' (PInt (size_q (heap example_world (query_ref example_sqs))))
                     (AList.update ''from_'' (PInt (offset (heap example_world (query_ref example_sqs))))
                        (params (heap example_world (query_ref example_sqs)))))) = Inr r
             \<and> r_suggest r = None"
    unfolding q0 f by (simp add: paged_backend_def)
  from get_suggestions_reruns_query[OF nosug body unset, of 2]
  show ?thesis
    unfolding q0 f c0 by (simp add: numeral_2_eq_2)
qed


section \<open>Windowed fetches\<close>

lemma build_query_window:
  "Query_build_query (Query_reset q\<lparr>offset := a, size_q := b\<rparr>) = Query_build_query q"
  unfolding Query_build_query_def Query_reset_def
  by (simp add: Let_def cong: if_cong)

text \<open>What \<open>run\<close> sends, whatever the backend replies.\<close>

lemma run_calls:
  assumes "Query_build_query q = Inr body"
  shows "snd (snd (Query_run bk q cs)) =
         cs @ [SearchCall (index_q q) (doc_type_q q) body
                 (AList.update ''size'' (PInt (size_q q))
                    (AList.update ''from_'' (PInt (offset q)) (params q)))]"
  using assms
  by (simp add: Query_run_def Let_def split_beta split: sum.splits)

lemma get_results_calls:
  assumes "Query_build_query q = Inr body" and "\<not> mlt_query q" and "results_c q = None"
  shows "snd (snd (Query_get_results bk q cs)) =
         cs @ [SearchCall (index_q q) (doc_type_q q) body
                 (AList.update ''size'' (PInt (size_q q))
                    (AList.update ''from_'' (PInt (offset q)) (params q)))]"
proof -
  obtain r q1 cs1 where run: "Query_run bk q cs = (r, q1, cs1)"
    by (cases "Query_run bk q cs") auto
  with run_calls[OF assms(1), of bk cs] have "cs1 = cs @ [SearchCall (index_q q) (doc_type_q q) body
                 (AList.update ''size'' (PInt (size_q q))
                    (AList.update ''from_'' (PInt (offset q)) (params q)))]" by simp
  with run assms(2,3) show ?thesis
    by (simp add: Query_get_results_def split: sum.splits)
qed

text \<open>A fetch into a cache that is already allocated sends exactly one search request.\<close>

lemma fill_cache_calls:
  assumes build: "Query_build_query (heap w (query_ref s)) = Inr body"
    and nomlt: "\<not> mlt_query (heap w (query_ref s))"
    and alloc: "result_cache s \<noteq> []"
  shows "calls (snd (snd (SQS_fill_cache bk (Some a) (Some b) s w))) =
         calls w @ [SearchCall (index_q (heap w (query_ref s))) (doc_type_q (heap w (query_ref s)))
                      body
                      (AList.update ''size'' (PInt (b - a))
                         (AList.update ''from_'' (PInt a) (params (heap w (query_ref s)))))]"
proof -
  define q where "q = heap w (query_ref s)"
  define q2 where "q2 = Query_reset q\<lparr>offset := a, size_q := b - a\<rparr>"
  have sl: "Query_set_limits (Some a) (Some b) (Query_reset q) = Inr q2"
    by (simp add: Query_set_limits_def q2_def)
  have b2: "Query_build_query q2 = Inr body"
    unfolding q2_def build_query_window using build by (simp add: q_def)
  have m2: "\<not> mlt_query q2" "results_c q2 = None"
    using nomlt by (simp_all add: q2_def Query_reset_def q_def)
  have f2: "index_q q2 = index_q q" "doc_type_q q2 = doc_type_q q" "params q2 = params q"
    "size_q q2 = b - a" "offset q2 = a"
    by (simp_all add: q2_def Query_reset_def)
  obtain r q3 cs3 where gr: "Query_get_results bk q2 (calls w) = (r, q3, cs3)"
    by (cases "Query_get_results bk q2 (calls w)") auto
  from get_results_calls[OF b2 m2, of bk "calls w"] gr
  have cs3: "cs3 = calls w @ [SearchCall (index_q q) (doc_type_q q) body
                      (AList.update ''size'' (PInt (b - a))
                         (AList.update ''from_'' (PInt a) (params q)))]"
    by (simp add: f2)
  from alloc have ne: "length (result_cache s) \<noteq> 0" by simp
  have "calls (snd (snd (SQS_fill_cache bk (Some a) (Some b) s w))) = cs3"
    unfolding SQS_fill_cache_def Let_def q_def[symmetric] sl
    using gr ne by (simp split: sum.splits)
  with cs3 show ?thesis by (simp add: q_def)
qed

lemma cache_not_full:
  assumes "hit_count (heap w (query_ref s)) = Some n" and "results_c (heap w (query_ref s)) \<noteq> None"
    and "0 < n" and "result_count s = None \<or> result_count s = Some n"
    and "Val PNone \<in> set (result_cache s)"
  shows "SQS_cache_is_full bk s w = (Inr False, s\<lparr>result_count := Some n\<rparr>, w)"
proof -
  have hr: "Query_has_run (heap w (query_ref s))"
    using assms(1,2) by (simp add: Query_has_run_def)
  have len: "SQS_len bk s w = (Inr n, s\<lparr>result_count := Some n\<rparr>, w)"
  proof (cases "result_count s")
    case None
    then show ?thesis
      using assms(1,3) by (simp add: SQS_len_def Query_get_count_def)
  next
    case (Some m)
    with assms(4) have "result_count s = Some n" by simp
    then have "s\<lparr>result_count := Some n\<rparr> = s" by (cases s) simp
    then show ?thesis
      using \<open>result_count s = Some n\<close> assms(3) by (simp add: SQS_len_def)
  qed
  show ?thesis
    using hr len assms(3,5) by (simp add: SQS_cache_is_full_def)
qed

text \<open>
  C1 (as amended). On a result set whose query has run, with a positive total count and
  an allocated cache, a range access \<^verbatim>\<open>[a:b]\<close> whose slots are all filled is served from
  the cache without any request; a range access that touches at least one unfilled slot
  sends exactly one search request, for the whole requested window: offset \<open>a\<close> and size
  \<open>b - a\<close>, the filled slots of the window included.
\<close>

theorem getitem_fetches_whole_window:
  assumes bounds: "0 \<le> a" "0 \<le> b"
    and alloc: "result_cache s \<noteq> []"
    and total: "hit_count (heap w (query_ref s)) = Some n" "results_c (heap w (query_ref s)) \<noteq> None"
      "0 < n" "result_count s = None \<or> result_count s = Some n"
    and build: "Query_build_query (heap w (query_ref s)) = Inr body"
    and nomlt: "\<not> mlt_query (heap w (query_ref s))"
  shows
    "(Val PNone \<in> set (py_slice (result_cache s) a b) \<longrightarrow>
        calls (snd (snd (SQS_getitem cf bk (Slice (Some a) (Some b)) s w))) =
          calls w @ [SearchCall (index_q (heap w (query_ref s))) (doc_type_q (heap w (query_ref s)))
                       body
                       (AList.update ''size'' (PInt (b - a))
                          (AList.update ''from_'' (PInt a) (params (heap w (query_ref s)))))]) \<and>
     (Val PNone \<notin> set (py_slice (result_cache s) a b) \<longrightarrow>
        SQS_getitem cf bk (Slice (Some a) (Some b)) s w =
          (Inr (Items (py_slice (result_cache s) a b)), s, w))"
proof (intro conjI impI)
  assume hole: "Val PNone \<in> set (py_slice (result_cache s) a b)"
  then have inc: "Val PNone \<in> set (result_cache s)"
    unfolding py_slice_def Let_def by (meson in_set_dropD in_set_takeD)
  let ?s1 = "s\<lparr>result_count := Some n\<rparr>"
  note nf = cache_not_full[OF total inc, of bk]
  have ne: "\<not> length (result_cache s) \<le> 0" using alloc by simp
  have gi: "snd (snd (SQS_getitem cf bk (Slice (Some a) (Some b)) s w)) =
            snd (snd (SQS_fill_cache bk (Some a) (Some b) ?s1 w))"
    using bounds ne hole nf
    by (simp add: SQS_getitem_def split_beta split: sum.splits)
  have "calls (snd (snd (SQS_fill_cache bk (Some a) (Some b) ?s1 w))) =
          calls w @ [SearchCall (index_q (heap w (query_ref s))) (doc_type_q (heap w (query_ref s)))
                       body
                       (AList.update ''size'' (PInt (b - a))
                          (AList.update ''from_'' (PInt a) (params (heap w (query_ref s)))))]"
    using fill_cache_calls[of w ?s1 body bk a b] build nomlt alloc by simp
  with gi show "calls (snd (snd (SQS_getitem cf bk (Slice (Some a) (Some b)) s w))) =
          calls w @ [SearchCall (index_q (heap w (query_ref s))) (doc_type_q (heap w (query_ref s)))
                       body
                       (AList.update ''size'' (PInt (b - a))
                          (AList.update ''from_'' (PInt a) (params (heap w (query_ref s)))))]"
    by simp
next
  assume filled: "Val PNone \<notin> set (py_slice (result_cache s) a b)"
  have ne: "\<not> length (result_cache s) \<le> 0" using alloc by simp
  show "SQS_getitem cf bk (Slice (Some a) (Some b)) s w =
          (Inr (Items (py_slice (result_cache s) a b)), s, w)"
    using bounds ne filled by (simp add: SQS_getitem_def)
qed

theorem getitem_fetches_whole_window_witness:
  "calls (snd (snd (SQS_getitem example_conf (paged_backend (map example_hit [0..<3]))
      (Slice (Some 1) (Some 3))
      (fst (snd (SQS_getitem example_conf (paged_backend (map example_hit [0..<3]))
                   (Slice (Some 0) (Some 2)) example_sqs example_world)))
      (snd (snd (SQS_getitem example_conf (paged_backend (map example_hit [0..<3]))
                   (Slice (Some 0) (Some 2)) example_sqs example_world))))))
   = [SearchCall ''idx'' (PStr ''doc'') (PDict [(''query'', PDict [(''match_all'', PDict [])])])
        [(''from_'', PInt 0), (''size'', PInt 2)],
      SearchCall ''idx'' (PStr ''doc'') (PDict [(''query'', PDict [(''match_all'', PDict [])])])
        [(''from_'', PInt 1), (''size'', PInt 2)]]"
proof -
  let ?bk = "paged_backend (map example_hit [0..<3])"
  let ?X = "SQS_getitem example_conf ?bk (Slice (Some 0) (Some 2)) example_sqs example_world"
  let ?s = "fst (snd ?X)"
  let ?w = "snd (snd ?X)"
  let ?body = "PDict [(''query'', PDict [(''match_all'', PDict [])])]"
  have b: "(0::int) \<le> 1" "(0::int) \<le> 3" by simp_all
  have alloc: "result_cache ?s \<noteq> []" by code_simp
  have t1: "hit_count (heap ?w (query_ref ?s)) = Some 3" by code_simp
  have t2: "results_c (heap ?w (query_ref ?s)) \<noteq> None" by code_simp
  have t3: "(0::int) < 3" by simp
  have t4: "result_count ?s = None \<or> result_count ?s = Some 3" by code_simp
  have build: "Query_build_query (heap ?w (query_ref ?s)) = Inr ?body" by code_simp
  have nomlt: "\<not> mlt_query (heap ?w (query_ref ?s))" by code_simp
  have hole: "Val PNone \<in> set (py_slice (result_cache ?s) 1 3)" by code_simp
  have c: "calls ?w = [SearchCall ''idx'' (PStr ''doc'') ?body [(''from_'', PInt 0), (''size'', PInt 2)]]"
    by code_simp
  have f: "index_q (heap ?w (query_ref ?s)) = ''idx''"
    "doc_type_q (heap ?w (query_ref ?s)) = PStr ''doc''"
    "AList.update ''size'' (PInt (3 - 1)) (AList.update ''from_'' (PInt 1)
       (params (heap ?w (query_ref ?s)))) = [(''from_'', PInt 1), (''size'', PInt 2)]"
    by code_simp+
  from getitem_fetches_whole_window[OF b alloc t1 t2 t3 t4 build nomlt, of example_conf ?bk] hole
  have "calls (snd (snd (SQS_getitem example_conf ?bk (Slice (Some 1) (Some 3)) ?s ?w))) =
          calls ?w @ [SearchCall (index_q (heap ?w (query_ref ?s))) (doc_type_q (heap ?w (query_ref ?s)))
                       ?body
                       (AList.update ''size'' (PInt (3 - 1))
                          (AList.update ''from_'' (PInt 1) (params (heap ?w (query_ref ?s)))))]"
    by blast
  then show ?thesis unfolding f c by simp
qed

text \<open>
  As the specification states it, the property fails: after \<^verbatim>\<open>[0:50]\<close> has filled the positions 0 to 49 of 75,
  the access \<^verbatim>\<open>[25:75]\<close> asks the backend for offset 25 and size 50, not for offset 50
  and size 25.
\<close>

theorem getitem_fetches_whole_window_counterexample:
  "length (result_cache (fst (snd (SQS_getitem example_conf
      (paged_backend (map example_hit [0..<75])) (Slice (Some 0) (Some 50))
      example_sqs example_world)))) = 75 \<and>
   take 50 (result_cache (fst (snd (SQS_getitem example_conf
      (paged_backend (map example_hit [0..<75])) (Slice (Some 0) (Some 50))
      example_sqs example_world)))) = map example_record [0..<50] \<and>
   calls (snd (snd (SQS_getitem example_conf (paged_backend (map example_hit [0..<75]))
      (Slice (Some 25) (Some 75))
      (fst (snd (SQS_getitem example_conf (paged_backend (map example_hit [0..<75]))
                   (Slice (Some 0) (Some 50)) example_sqs example_world)))
      (snd (snd (SQS_getitem example_conf (paged_backend (map example_hit [0..<75]))
                   (Slice (Some 0) (Some 50)) example_sqs example_world))))))
   = [SearchCall ''idx'' (PStr ''doc'') (PDict [(''query'', PDict [(''match_all'', PDict [])])])
        [(''from_'', PInt 0), (''size'', PInt 50)],
      SearchCall ''idx'' (PStr ''doc'') (PDict [(''query'', PDict [(''match_all'', PDict [])])])
        [(''from_'', PInt 25), (''size'', PInt 50)]]"
  by code_simp


section \<open>Full traversal\<close>

lemma ppr_iff:
  "post_process_results s hs = Inr rs \<longleftrightarrow> list_all2 (\<lambda>h r. convert_result s h = Inr r) hs rs"
proof (induction hs arbitrary: rs)
  case Nil
  then show ?case by auto
next
  case (Cons h hs)
  show ?case
  proof (cases "convert_result s h")
    case (Inl e)
    then show ?thesis by (auto simp add: list_all2_Cons1)
  next
    case (Inr x)
    show ?thesis
    proof (cases "post_process_results s hs")
      case (Inl e)
      with Inr Cons.IH show ?thesis by (auto simp add: list_all2_Cons1)
    next
      case (Inr xs)
      with \<open>convert_result s h = Inr x\<close> Cons.IH[of xs] Cons.IH show ?thesis
        by (auto simp add: list_all2_Cons1)
    qed
  qed
qed

lemma ppr_length: "post_process_results s hs = Inr rs \<Longrightarrow> length rs = length hs"
  by (simp add: ppr_iff list_all2_lengthD)

lemma ppr_window:
  "post_process_results s hs = Inr rs \<Longrightarrow>
   post_process_results s (take k (drop a hs)) = Inr (take k (drop a rs))"
  unfolding ppr_iff by (intro list_all2_takeI list_all2_dropI)

lemma convert_result_filled: "convert_result s h = Inr r \<Longrightarrow> r \<noteq> Val PNone"
  by (auto simp add: convert_result_def Let_def split: if_splits sum.splits pyval.splits)

lemma ppr_filled: "post_process_results s hs = Inr rs \<Longrightarrow> Val PNone \<notin> set rs"
  unfolding ppr_iff
  by (induction hs rs rule: list_all2_induct) (auto dest: convert_result_filled)

lemma convert_result_cache_fields:
  "convert_result (s\<lparr>result_cache := c, result_count := n\<rparr>) h = convert_result s h"
  "convert_result (s\<lparr>result_cache := c\<rparr>) h = convert_result s h"
  "convert_result (s\<lparr>result_count := n\<rparr>) h = convert_result s h"
  by (simp_all add: convert_result_def Let_def)

lemma ppr_cache_fields:
  "post_process_results (s\<lparr>result_cache := c, result_count := n\<rparr>) hs = post_process_results s hs"
  "post_process_results (s\<lparr>result_cache := c\<rparr>) hs = post_process_results s hs"
  "post_process_results (s\<lparr>result_count := n\<rparr>) hs = post_process_results s hs"
  by (induction hs) (auto simp add: convert_result_cache_fields split: sum.splits)

lemma first_unfilled_le: "first_unfilled cache \<le> length cache"
  by (simp add: first_unfilled_def length_takeWhile_le)

lemma first_unfilled_full:
  "Val PNone \<notin> set cache \<Longrightarrow> first_unfilled cache = length cache"
  by (induction cache) (auto simp add: first_unfilled_def)

lemma first_unfilled_hole:
  "first_unfilled cache < length cache \<Longrightarrow> cache ! first_unfilled cache = Val PNone"
  unfolding first_unfilled_def using nth_length_takeWhile by blast

lemma first_unfilled_before:
  "i < first_unfilled cache \<Longrightarrow> cache ! i \<noteq> Val PNone"
proof -
  assume lt: "i < first_unfilled cache"
  then have "takeWhile (\<lambda>x. x \<noteq> Val PNone) cache ! i = cache ! i"
    unfolding first_unfilled_def by (rule takeWhile_nth)
  moreover have "takeWhile (\<lambda>x. x \<noteq> Val PNone) cache ! i
                 \<in> set (takeWhile (\<lambda>x. x \<noteq> Val PNone) cache)"
    using lt unfolding first_unfilled_def by (rule nth_mem)
  ultimately show "cache ! i \<noteq> Val PNone"
    using set_takeWhileD by fastforce
qed

lemma first_unfilled_lt_iff:
  "first_unfilled cache < length cache \<longleftrightarrow> Val PNone \<in> set cache"
  by (induction cache) (auto simp add: first_unfilled_def)

text \<open>If the first \<open>k\<close> slots are filled, the first unfilled slot is at \<open>k\<close> or later.\<close>

lemma first_unfilled_ge:
  assumes "k \<le> length cache" and "\<forall>i<k. cache ! i \<noteq> Val PNone"
  shows "k \<le> first_unfilled cache"
proof (rule ccontr)
  assume "\<not> k \<le> first_unfilled cache"
  then have lt: "first_unfilled cache < k" by simp
  with assms(1) have "first_unfilled cache < length cache" by simp
  then have "cache ! first_unfilled cache = Val PNone" by (rule first_unfilled_hole)
  with assms(2) lt show False by blast
qed

lemma py_slice_assign_inside:
  assumes "a + length ys \<le> length xs"
  shows "py_slice_assign xs (int a) (int a + int (length ys)) ys =
         take a xs @ ys @ drop (a + length ys) xs"
proof -
  have lo: "slice_index (length xs) (int a) = a"
    using assms by (simp add: slice_index_def)
  have "nat (int a + int (length ys)) = a + length ys" by simp
  then have hi: "slice_index (length xs) (int a + int (length ys)) = a + length ys"
    using assms by (simp add: slice_index_def)
  show ?thesis
    by (simp add: py_slice_assign_def lo hi)
qed

lemma nth_three:
  assumes "length xs = a"
  shows "i < a \<Longrightarrow> (xs @ ys @ zs) ! i = xs ! i"
    and "a \<le> i \<Longrightarrow> i < a + length ys \<Longrightarrow> (xs @ ys @ zs) ! i = ys ! (i - a)"
    and "a + length ys \<le> i \<Longrightarrow> (xs @ ys @ zs) ! i = zs ! (i - a - length ys)"
proof -
  show "i < a \<Longrightarrow> (xs @ ys @ zs) ! i = xs ! i"
    using assms by (simp add: nth_append)
  show "a \<le> i \<Longrightarrow> i < a + length ys \<Longrightarrow> (xs @ ys @ zs) ! i = ys ! (i - a)"
  proof -
    assume h: "a \<le> i" "i < a + length ys"
    then have "\<not> i < length xs" "i - length xs < length ys" using assms by auto
    then show ?thesis using assms by (simp add: nth_append)
  qed
  show "a + length ys \<le> i \<Longrightarrow> (xs @ ys @ zs) ! i = zs ! (i - a - length ys)"
  proof -
    assume h: "a + length ys \<le> i"
    then have "\<not> i < length xs" "\<not> i - length xs < length ys" using assms by auto
    then show ?thesis using assms by (simp add: nth_append)
  qed
qed

lemma agree_alloc:
  "list_all2 (\<lambda>c r. c = Val PNone \<or> c = r) (replicate (length rs) (Val PNone)) rs"
  by (simp add: list_all2_conv_all_nth)

lemma agree_prefix:
  assumes "list_all2 (\<lambda>c r. c = Val PNone \<or> c = r) cache rs"
  shows "take (first_unfilled cache) cache = take (first_unfilled cache) rs"
proof (rule nth_equalityI)
  from assms have len: "length cache = length rs" by (rule list_all2_lengthD)
  then show "length (take (first_unfilled cache) cache) = length (take (first_unfilled cache) rs)"
    by simp
  fix i assume "i < length (take (first_unfilled cache) cache)"
  then have i: "i < first_unfilled cache" "i < length cache" by simp_all
  from assms i(2) have "cache ! i = Val PNone \<or> cache ! i = rs ! i"
    by (simp add: list_all2_conv_all_nth)
  with first_unfilled_before[OF i(1)] have "cache ! i = rs ! i" by simp
  with i show "take (first_unfilled cache) cache ! i = take (first_unfilled cache) rs ! i"
    by simp
qed

text \<open>Writing the records of a window into an agreeing cache keeps it agreeing.\<close>

lemma agree_assign:
  assumes agree: "list_all2 (\<lambda>c r. c = Val PNone \<or> c = r) cache rs"
    and a: "a \<le> length rs"
  shows "list_all2 (\<lambda>c r. c = Val PNone \<or> c = r)
           (take a cache @ take k (drop a rs) @ drop (a + length (take k (drop a rs))) cache) rs"
proof -
  from agree have len: "length cache = length rs" by (rule list_all2_lengthD)
  let ?ys = "take k (drop a rs)"
  let ?new = "take a cache @ ?ys @ drop (a + length ?ys) cache"
  have ly: "a + length ?ys \<le> length rs" using a by simp
  have ln: "length ?new = length rs" using len a ly by simp
  have la: "length (take a cache) = a" using len a by simp
  have "\<forall>i<length ?new. ?new ! i = Val PNone \<or> ?new ! i = rs ! i"
  proof (intro allI impI)
    fix i assume i: "i < length ?new"
    then have ir: "i < length rs" using ln by simp
    from agree ir len have old: "cache ! i = Val PNone \<or> cache ! i = rs ! i"
      by (simp add: list_all2_conv_all_nth)
    consider "i < a" | "a \<le> i" "i < a + length ?ys" | "a + length ?ys \<le> i" by linarith
    then show "?new ! i = Val PNone \<or> ?new ! i = rs ! i"
    proof cases
      case 1
      have "?new ! i = take a cache ! i" using nth_three(1)[OF la 1] by blast
      with 1 old show ?thesis by simp
    next
      case 2
      then have "?new ! i = ?ys ! (i - a)" using la nth_three(2) by blast
      moreover have "i - a < length ?ys" using 2 by linarith
      then have "?ys ! (i - a) = drop a rs ! (i - a)" by simp
      moreover have "drop a rs ! (i - a) = rs ! i" using 2 a by simp
      ultimately show ?thesis by simp
    next
      case 3
      then have "?new ! i = drop (a + length ?ys) cache ! (i - a - length ?ys)"
        using la nth_three(3) by blast
      moreover have "drop (a + length ?ys) cache ! (i - a - length ?ys) = cache ! i"
        using 3 ir len by simp
      ultimately show ?thesis using old by simp
    qed
  qed
  with ln show ?thesis by (simp add: list_all2_conv_all_nth)
qed

text \<open>After the assignment, the slots before the end of the window are filled.\<close>

lemma first_unfilled_assign:
  assumes before: "a \<le> first_unfilled cache"
    and ys: "Val PNone \<notin> set ys"
    and inside: "a + length ys \<le> length cache"
  shows "a + length ys \<le> first_unfilled (take a cache @ ys @ drop (a + length ys) cache)"
proof (rule first_unfilled_ge)
  let ?new = "take a cache @ ys @ drop (a + length ys) cache"
  show "a + length ys \<le> length ?new" using inside by simp
  show "\<forall>i<a + length ys. ?new ! i \<noteq> Val PNone"
  proof (intro allI impI)
    fix i assume i: "i < a + length ys"
    show "?new ! i \<noteq> Val PNone"
    proof (cases "i < a")
      case True
      have la: "length (take a cache) = a" using inside by simp
      have "?new ! i = take a cache ! i" using nth_three(1)[OF la True] by blast
      with True have "?new ! i = cache ! i" by simp
      moreover have "cache ! i \<noteq> Val PNone"
        using True before first_unfilled_before[of i cache] by simp
      ultimately show ?thesis by simp
    next
      case False
      have la: "length (take a cache) = a" using inside by simp
      from False i have "?new ! i = ys ! (i - a)" using la nth_three(2)[of "take a cache" a i ys]
        by simp
      moreover have "i - a < length ys" using False i by linarith
      then have "ys ! (i - a) \<in> set ys" by simp
      ultimately show ?thesis using ys by metis
    qed
  qed
qed

text \<open>One fetch of a window against a backend that serves \<open>hs\<close>.\<close>

lemma get_results_serves:
  assumes sv: "serves bk hs"
    and build: "Query_build_query q = Inr body"
    and nomlt: "\<not> mlt_query q"
    and W: "0 \<le> W"
  shows "\<exists>q3 c. Query_get_results bk (Query_reset q\<lparr>offset := int a, size_q := W\<rparr>) cs
                 = (Inr (Some (take (nat W) (drop a hs))), q3, cs @ [c]) \<and>
               results_c q3 = Some (take (nat W) (drop a hs)) \<and>
               hit_count q3 = Some (int (length hs)) \<and>
               Query_build_query q3 = Inr body \<and> \<not> mlt_query q3"
proof -
  define q2 where "q2 = Query_reset q\<lparr>offset := int a, size_q := W\<rparr>"
  define ps where "ps = AList.update ''size'' (PInt W)
                          (AList.update ''from_'' (PInt (int a)) (params q))"
  define c where "c = SearchCall (index_q q) (doc_type_q q) body ps"
  have b2: "Query_build_query q2 = Inr body"
    unfolding q2_def build_query_window by (rule build)
  have f2: "index_q q2 = index_q q" "doc_type_q q2 = doc_type_q q" "params q2 = params q"
    "size_q q2 = W" "offset q2 = int a" "\<not> mlt_query q2" "results_c q2 = None"
    using nomlt by (simp_all add: q2_def Query_reset_def)
  have m: "map_of ps ''from_'' = Some (PInt (int a)) \<and> map_of ps ''size'' = Some (PInt W)"
    by (simp add: ps_def update_conv')
  from sv m W obtain r where r: "bk_search bk (length cs) c = Inr r"
      "r_hits r = take (nat W) (drop (nat (int a)) hs)" "r_total r = int (length hs)"
      "r_suggest r = None"
    unfolding serves_def c_def by (metis of_nat_0_le_iff)
  define q3 where "q3 = q2\<lparr>params := ps, results_c := Some (take (nat W) (drop a hs)),
      hit_count := Some (int (length hs)),
      facet_counts_c := Some (process_facets (r_facets r)), suggestions_c := None\<rparr>"
  have run: "Query_run bk q2 cs = (Inr (), q3, cs @ [c])"
    using b2 r
    by (simp add: Query_run_def Let_def f2 ps_def[symmetric] c_def[symmetric] store_results_def
        process_suggestions_def q3_def)
  have gr: "Query_get_results bk q2 cs = (Inr (Some (take (nat W) (drop a hs))), q3, cs @ [c])"
    using run f2 by (simp add: Query_get_results_def q3_def)
  have b3: "Query_build_query q3 = Inr body"
    unfolding q3_def build_query_exec_fields by (rule b2)
  have "\<not> mlt_query q3" using f2 by (simp add: q3_def)
  with gr b3 show ?thesis
    unfolding q2_def[symmetric] by (intro exI[of _ q3] exI[of _ c]) (simp add: q3_def)
qed

lemma window_empty_iff:
  assumes "0 < W"
  shows "take (nat W) (drop a hs) = [] \<longleftrightarrow> \<not> a < length hs"
  using assms by auto

text \<open>
  One call of \<open>_fill_cache\<close> for the window at \<open>a\<close> on a consistent result set: it
  returns whether there was something to fetch and leaves a consistent result set.
\<close>

lemma fill_cache_serves:
  assumes sv: "serves bk hs"
    and cons: "consistent_with hs rs body s w"
    and W: "0 < W"
  shows "\<exists>s' w'.
           SQS_fill_cache bk (Some (int a)) (Some (int a + W)) s w = (Inr (a < length hs), s', w') \<and>
           consistent_with hs rs body s' w' \<and>
           Query_has_run (heap w' (query_ref s')) \<and>
           hit_count (heap w' (query_ref s')) = Some (int (length hs)) \<and>
           query_ref s' = query_ref s \<and> result_count s' = result_count s \<and>
           length (calls w') = Suc (length (calls w)) \<and>
           result_cache s' =
             (if a < length hs then
                take a (if result_cache s = [] then replicate (length hs) (Val PNone)
                        else result_cache s)
                @ take (nat W) (drop a rs)
                @ drop (a + length (take (nat W) (drop a rs)))
                    (if result_cache s = [] then replicate (length hs) (Val PNone)
                     else result_cache s)
              else result_cache s)"
proof -
  define q where "q = heap w (query_ref s)"
  define hw where "hw = take (nat W) (drop a hs)"
  from cons have build: "Query_build_query q = Inr body" and nomlt: "\<not> mlt_query q"
    and ppr: "post_process_results s hs = Inr rs"
    and cc: "cache_consistent (result_cache s) rs"
    and rc: "result_count s = None \<or> result_count s = Some (int (length hs))"
    unfolding consistent_with_def q_def by simp_all
  have lrs: "length rs = length hs" using ppr by (rule ppr_length)
  from W have W0: "0 \<le> W" by simp
  from get_results_serves[OF sv build nomlt W0, of a "calls w"]
  obtain q3 c where gr: "Query_get_results bk (Query_reset q\<lparr>offset := int a, size_q := W\<rparr>) (calls w)
                 = (Inr (Some hw), q3, calls w @ [c])"
    and q3: "results_c q3 = Some hw" "hit_count q3 = Some (int (length hs))"
      "Query_build_query q3 = Inr body" "\<not> mlt_query q3"
    unfolding hw_def by blast
  have sl: "Query_set_limits (Some (int a)) (Some (int a + W)) (Query_reset q)
            = Inr (Query_reset q\<lparr>offset := int a, size_q := W\<rparr>)"
    by (simp add: Query_set_limits_def)
  define w' where "w' = w\<lparr>heap := (heap w)(query_ref s := q3), calls := calls w @ [c]\<rparr>"
  have hw': "heap w' (query_ref s) = q3" "calls w' = calls w @ [c]"
    by (simp_all add: w'_def)
  have hr: "Query_has_run q3" using q3 by (simp add: Query_has_run_def)
  show ?thesis
  proof (cases "a < length hs")
    case False
    then have empty: "hw = []" unfolding hw_def using window_empty_iff[OF W] by blast
    have res: "SQS_fill_cache bk (Some (int a)) (Some (int a + W)) s w = (Inr False, s, w')"
      unfolding SQS_fill_cache_def Let_def q_def[symmetric] sl
      using gr empty by (simp add: w'_def)
    have "consistent_with hs rs body s w'"
      unfolding consistent_with_def hw' using q3 ppr cc rc by simp
    with res False hr q3 hw' show ?thesis
      by (intro exI[of _ s] exI[of _ w']) simp
  next
    case True
    then have nonempty: "hw \<noteq> []" unfolding hw_def using window_empty_iff[OF W] by blast
    define C where "C = (if result_cache s = [] then replicate (length hs) (Val PNone)
                         else result_cache s)"
    define ys where "ys = take (nat W) (drop a rs)"
    define s4 where "s4 = (if result_cache s = [] then s\<lparr>result_cache := C\<rparr> else s)"
    have s4C: "result_cache s4 = C" by (simp add: s4_def C_def)
    have agreeC: "list_all2 (\<lambda>c r. c = Val PNone \<or> c = r) C rs"
    proof (cases "result_cache s = []")
      case True
      then show ?thesis using agree_alloc[of rs] by (simp add: C_def lrs)
    next
      case False
      with cc show ?thesis by (simp add: C_def cache_consistent_def)
    qed
    then have lC: "length C = length hs" using lrs by (simp add: list_all2_lengthD)
    have gc: "Query_get_count bk q3 (calls w @ [c]) = (Inr (Some (int (length hs))), q3, calls w @ [c])"
      using q3 by (simp add: Query_get_count_def)
    have conv: "post_process_results s4 hw = Inr ys"
      unfolding hw_def ys_def s4_def using ppr_window[OF ppr] by (simp add: ppr_cache_fields)
    have lys: "length ys = length hw" unfolding ys_def hw_def using lrs by simp
    have inside: "a + length ys \<le> length C" unfolding ys_def using lC lrs True by simp
    have assign: "py_slice_assign C (int a) (int a + int (length ys)) ys
                  = take a C @ ys @ drop (a + length ys) C"
      using inside by (rule py_slice_assign_inside)
    define s' where "s' = s\<lparr>result_cache := take a C @ ys @ drop (a + length ys) C\<rparr>"
    have s4upd: "s4\<lparr>result_cache := take a C @ ys @ drop (a + length ys) C\<rparr> = s'"
      by (simp add: s4_def s'_def)
    have res: "SQS_fill_cache bk (Some (int a)) (Some (int a + W)) s w = (Inr True, s', w')"
    proof (cases "result_cache s = []")
      case True
      then have s4': "s4 = s\<lparr>result_cache := replicate (length hs) (Val PNone)\<rparr>"
        by (simp add: s4_def C_def)
      show ?thesis
        unfolding SQS_fill_cache_def Let_def q_def[symmetric] sl
        using gr nonempty True gc conv[unfolded s4'] assign[unfolded C_def] s4upd[unfolded s4' C_def]
        by (simp add: w'_def C_def)
    next
      case False
      then have s4': "s4 = s" by (simp add: s4_def)
      from False have CC: "C = result_cache s" by (simp add: C_def)
      show ?thesis
        unfolding SQS_fill_cache_def Let_def q_def[symmetric] sl
        using gr nonempty False conv[unfolded s4'] assign[unfolded CC] s4upd[unfolded s4' CC]
        by (simp add: w'_def)
    qed
    have a_le: "a \<le> length rs" using True lrs by simp
    have "list_all2 (\<lambda>c r. c = Val PNone \<or> c = r) (take a C @ ys @ drop (a + length ys) C) rs"
      unfolding ys_def using agree_assign[OF agreeC a_le] by simp
    then have cc': "cache_consistent (result_cache s') rs"
      by (simp add: cache_consistent_def s'_def)
    have ppr': "post_process_results s' hs = Inr rs"
      using ppr by (simp add: s'_def ppr_cache_fields)
    have cons': "consistent_with hs rs body s' w'"
      unfolding consistent_with_def using q3 ppr' cc' rc hw' by (simp add: s'_def)
    have "result_cache s' = take a C @ ys @ drop (a + length ys) C" by (simp add: s'_def)
    with res True hr q3 hw' cons' show ?thesis
      unfolding C_def ys_def
      by (intro exI[of _ s'] exI[of _ w']) (simp add: s'_def)
  qed
qed

lemma agree_full:
  assumes "list_all2 (\<lambda>c r. c = Val PNone \<or> c = r) cache rs" and "Val PNone \<notin> set cache"
  shows "cache = rs"
proof -
  from assms(2) have "first_unfilled cache = length cache" by (rule first_unfilled_full)
  moreover from assms(1) have "length cache = length rs" by (rule list_all2_lengthD)
  ultimately show ?thesis using agree_prefix[OF assms(1)] by simp
qed

text \<open>\<open>_cache_is_full\<close> on a consistent result set sends nothing and at most records the count.\<close>

lemma cache_is_full_consistent:
  assumes cons: "consistent_with hs rs body s w"
  shows "\<exists>s1. SQS_cache_is_full bk s w =
                (Inr (Query_has_run (heap w (query_ref s)) \<and>
                      (length hs = 0 \<or> (Val PNone \<notin> set (result_cache s) \<and> result_cache s \<noteq> []))),
                 s1, w) \<and>
              consistent_with hs rs body s1 w \<and> result_cache s1 = result_cache s \<and>
              query_ref s1 = query_ref s"
proof (cases "Query_has_run (heap w (query_ref s))")
  case False
  then show ?thesis using cons by (simp add: SQS_cache_is_full_def)
next
  case True
  define q where "q = heap w (query_ref s)"
  from True have "hit_count q \<noteq> None" by (simp add: Query_has_run_def q_def)
  with cons have hc: "hit_count q = Some (int (length hs))"
    unfolding consistent_with_def q_def by auto
  from cons have rc: "result_count s = None \<or> result_count s = Some (int (length hs))"
    unfolding consistent_with_def by simp
  define s1 where "s1 = s\<lparr>result_count := Some (int (length hs))\<rparr>"
  have same: "w\<lparr>heap := (heap w)(query_ref s := q), calls := calls w\<rparr> = w"
    by (simp add: q_def)
  have len: "SQS_len bk s w = (Inr (int (length hs)), s1, w)"
  proof (cases "result_count s")
    case None
    then show ?thesis
      using hc same by (simp add: SQS_len_def Query_get_count_def q_def[symmetric] s1_def)
  next
    case (Some m)
    with rc have "result_count s = Some (int (length hs))" by simp
    moreover from this have "s1 = s" by (cases s) (simp add: s1_def)
    ultimately show ?thesis by (simp add: SQS_len_def)
  qed
  have c1: "consistent_with hs rs body s1 w"
    using cons unfolding consistent_with_def s1_def by (simp add: ppr_cache_fields)
  have r1: "result_cache s1 = result_cache s" "query_ref s1 = query_ref s"
    by (simp_all add: s1_def)
  have "SQS_cache_is_full bk s w =
          (Inr (length hs = 0 \<or> (Val PNone \<notin> set (result_cache s) \<and> result_cache s \<noteq> [])), s1, w)"
    using True len r1 by (auto simp add: SQS_cache_is_full_def)
  with True c1 r1 show ?thesis by (intro exI[of _ s1]) simp
qed

lemma prefix_extend:
  assumes "pos \<le> fn" and "take fn cache = take fn rs"
  shows "take pos rs @ take (fn - pos) (drop pos cache) = take fn rs"
proof -
  have "take (fn - pos) (drop pos cache) = drop pos (take fn cache)"
    by (simp add: drop_take)
  also have "\<dots> = drop pos (take fn rs)" using assms(2) by simp
  finally have tail: "take (fn - pos) (drop pos cache) = drop pos (take fn rs)" .
  have "take pos rs = take pos (take fn rs)" using assms(1) by (simp add: min_absorb1)
  then have "take pos rs @ drop pos (take fn rs) = take fn rs"
    by (simp only: append_take_drop_id)
  with tail show ?thesis by simp
qed

text \<open>
  The generator on a consistent result set, from the head of its outer loop: with one unit
  of fuel more than the number of slots from the first unfilled one on, it ends normally,
  has yielded exactly the records \<open>rs\<close>, and leaves the cache holding \<open>rs\<close>.
\<close>

lemma manual_iter_consistent:
  assumes sv: "serves bk hs" and W: "0 < SIZE_PER_QUERY cf"
  shows "consistent_with hs rs body s w \<Longrightarrow>
         out = take pos rs \<Longrightarrow>
         (result_cache s = [] \<longrightarrow> pos = 0 \<and> cmax = 0) \<Longrightarrow>
         (result_cache s \<noteq> [] \<longrightarrow> pos \<le> first_unfilled (result_cache s)) \<Longrightarrow>
         length hs - first_unfilled (result_cache s) < fuel \<Longrightarrow>
         \<exists>s' w'. manual_iter fuel cf bk pos cmax out s w = Some (rs, None, s', w') \<and>
                 consistent_with hs rs body s' w' \<and>
                 Query_has_run (heap w' (query_ref s')) \<and>
                 result_cache s' = rs \<and> query_ref s' = query_ref s"
proof (induction fuel arbitrary: pos cmax out s w)
  case 0
  then show ?case by simp
next
  case (Suc fuel)
  note cons = Suc.prems(1) and out = Suc.prems(2) and emp = Suc.prems(3)
    and filled = Suc.prems(4) and fuel = Suc.prems(5)
  define cache where "cache = result_cache s"
  define fn where "fn = first_unfilled cache"
  define a where "a = (if cache = [] then 0 else fn)"
  define out1 where "out1 = take a rs"
  from cons have ppr: "post_process_results s hs = Inr rs"
    and cc: "cache_consistent cache rs"
    unfolding consistent_with_def cache_def by simp_all
  have lrs: "length rs = length hs" using ppr by (rule ppr_length)
  have nofill: "Val PNone \<notin> set rs" using ppr by (rule ppr_filled)
  have agree: "cache \<noteq> [] \<Longrightarrow> list_all2 (\<lambda>c r. c = Val PNone \<or> c = r) cache rs"
    using cc by (simp add: cache_consistent_def)
  have lcache: "cache \<noteq> [] \<Longrightarrow> length cache = length hs"
    using agree lrs by (auto dest: list_all2_lengthD)
  have fn_le: "fn \<le> length cache" unfolding fn_def by (rule first_unfilled_le)
  have pos_a: "pos \<le> a"
    using emp filled unfolding a_def cache_def[symmetric] fn_def by auto
  have cm: "(if length cache > 0 then
               (if Val PNone \<in> set cache
                then length (takeWhile (\<lambda>x. x \<noteq> Val PNone) cache)
                else length cache)
             else cmax) = a"
  proof (cases "cache = []")
    case True
    then show ?thesis using emp by (simp add: a_def cache_def)
  next
    case False
    then show ?thesis
      using first_unfilled_full[of cache] by (auto simp add: a_def fn_def first_unfilled_def)
  qed
  have noerr: "\<not> (pos < a \<and> length cache < a)"
    using fn_le by (auto simp add: a_def)
  have o1: "out @ take (a - pos) (drop pos cache) = out1"
  proof (cases "cache = []")
    case True
    then show ?thesis using emp out by (simp add: a_def out1_def cache_def)
  next
    case False
    then have "take fn cache = take fn rs"
      unfolding fn_def using agree agree_prefix by blast
    with prefix_extend[of pos fn cache rs] pos_a False out show ?thesis
      by (simp add: a_def out1_def)
  qed
  have mx: "max pos a = a" using pos_a by simp
  have step: "manual_iter (Suc fuel) cf bk pos cmax out s w =
     (case SQS_cache_is_full bk s w of
        (Inl e, s1, w1) \<Rightarrow> Some (out1, Some e, s1, w1)
      | (Inr True, s1, w1) \<Rightarrow> Some (out1, None, s1, w1)
      | (Inr False, s1, w1) \<Rightarrow>
          (case SQS_fill_cache bk (Some (int a)) (Some (int a + SIZE_PER_QUERY cf)) s1 w1 of
             (Inl e, s2, w2) \<Rightarrow> Some (out1, Some e, s2, w2)
           | (Inr False, s2, w2) \<Rightarrow> Some (out1, None, s2, w2)
           | (Inr True, s2, w2) \<Rightarrow> manual_iter fuel cf bk a a out1 s2 w2))"
    apply (subst manual_iter.simps(2))
    apply (unfold Let_def cache_def[symmetric] cm o1 mx)
    by (simp add: noerr)
  define fullb where "fullb \<longleftrightarrow> Query_has_run (heap w (query_ref s)) \<and>
                      (length hs = 0 \<or> (Val PNone \<notin> set cache \<and> cache \<noteq> []))"
  from cache_is_full_consistent[OF cons, of bk]
  obtain s1 where full: "SQS_cache_is_full bk s w = (Inr fullb, s1, w)"
    and cons1: "consistent_with hs rs body s1 w"
    and same1: "result_cache s1 = cache" "query_ref s1 = query_ref s"
    unfolding cache_def fullb_def by blast
  have fin: "out1 = rs \<and> cache = rs"
    if h: "\<not> a < length hs \<or> length hs = 0 \<or> (Val PNone \<notin> set cache \<and> cache \<noteq> [])"
  proof (cases "cache = []")
    case True
    with h have "length hs = 0" by (simp add: a_def)
    with lrs have "rs = []" by simp
    with True show ?thesis by (simp add: out1_def)
  next
    case False
    from False lcache have lc: "length cache = length hs" by simp
    from False lc have "length hs \<noteq> 0" by auto
    with h False have "\<not> fn < length cache \<or> Val PNone \<notin> set cache"
      by (auto simp add: a_def lc)
    then have none: "Val PNone \<notin> set cache"
      using first_unfilled_lt_iff[of cache] by (auto simp add: fn_def)
    then have eq: "cache = rs" using agree[OF False] agree_full by blast
    from none have "fn = length cache" unfolding fn_def by (rule first_unfilled_full)
    with False eq show ?thesis by (simp add: a_def out1_def)
  qed
  show ?case
  proof (cases fullb)
    case True
    have res: "manual_iter (Suc fuel) cf bk pos cmax out s w = Some (out1, None, s1, w)"
      unfolding step full using True by simp
    from True fin have "out1 = rs \<and> cache = rs" unfolding fullb_def by blast
    with res cons1 same1 True show ?thesis
      unfolding fullb_def by (intro exI[of _ s1] exI[of _ w]) simp
  next
    case notfull: False
    from fill_cache_serves[OF sv cons1 W, of a]
    obtain s2 w2 where fc: "SQS_fill_cache bk (Some (int a)) (Some (int a + SIZE_PER_QUERY cf)) s1 w
                             = (Inr (a < length hs), s2, w2)"
      and cons2: "consistent_with hs rs body s2 w2"
      and run2: "Query_has_run (heap w2 (query_ref s2))"
      and ref2: "query_ref s2 = query_ref s1"
      and cache2: "result_cache s2 =
             (if a < length hs then
                take a (if result_cache s1 = [] then replicate (length hs) (Val PNone)
                        else result_cache s1)
                @ take (nat (SIZE_PER_QUERY cf)) (drop a rs)
                @ drop (a + length (take (nat (SIZE_PER_QUERY cf)) (drop a rs)))
                    (if result_cache s1 = [] then replicate (length hs) (Val PNone)
                     else result_cache s1)
              else result_cache s1)"
      by blast
    show ?thesis
    proof (cases "a < length hs")
      case False
      have res: "manual_iter (Suc fuel) cf bk pos cmax out s w = Some (out1, None, s2, w2)"
        unfolding step full using notfull False fc by simp
      from False fin have "out1 = rs \<and> cache = rs" by blast
      moreover from False cache2 same1 have "result_cache s2 = cache" by simp
      ultimately show ?thesis
        using res cons2 run2 ref2 same1 by (intro exI[of _ s2] exI[of _ w2]) simp
    next
      case True
      have res: "manual_iter (Suc fuel) cf bk pos cmax out s w =
                 manual_iter fuel cf bk a a out1 s2 w2"
        unfolding step full using notfull True fc by simp
      define C where "C = (if cache = [] then replicate (length hs) (Val PNone) else cache)"
      define ys where "ys = take (nat (SIZE_PER_QUERY cf)) (drop a rs)"
      from True cache2 same1 have c2: "result_cache s2 = take a C @ ys @ drop (a + length ys) C"
        by (simp add: C_def ys_def)
      have lC: "length C = length hs" using lcache by (simp add: C_def)
      have ys_len: "0 < length ys" using True W lrs by (simp add: ys_def)
      have ys_fill: "Val PNone \<notin> set ys"
        using nofill unfolding ys_def by (meson in_set_dropD in_set_takeD)
      have inside: "a + length ys \<le> length C" using lC lrs True by (simp add: ys_def)
      have a_fu: "a \<le> first_unfilled C"
        by (simp add: a_def C_def fn_def)
      from first_unfilled_assign[OF a_fu ys_fill inside] c2
      have fu2: "a + length ys \<le> first_unfilled (result_cache s2)" by simp
      have ne2: "result_cache s2 \<noteq> []" using c2 ys_len by auto
      have a_old: "a = first_unfilled cache"
        by (cases "cache = []") (simp_all add: a_def fn_def first_unfilled_def)
      from fuel have "length hs - a < Suc fuel" by (simp add: a_old cache_def)
      with fu2 ys_len True have fuel2: "length hs - first_unfilled (result_cache s2) < fuel"
        by linarith
      have p2: "result_cache s2 \<noteq> [] \<longrightarrow> a \<le> first_unfilled (result_cache s2)"
        using fu2 by simp
      have e2: "result_cache s2 = [] \<longrightarrow> a = 0 \<and> a = 0" using ne2 by simp
      from Suc.IH[OF cons2 out1_def e2 p2 fuel2]
      obtain s' w' where "manual_iter fuel cf bk a a out1 s2 w2 = Some (rs, None, s', w')"
        "consistent_with hs rs body s' w'" "Query_has_run (heap w' (query_ref s'))"
        "result_cache s' = rs" "query_ref s' = query_ref s2"
        by blast
      with res ref2 same1 show ?thesis
        by (intro exI[of _ s'] exI[of _ w']) simp
    qed
  qed
qed

lemma paged_backend_serves: "serves (paged_backend hs) hs"
  by (simp add: serves_def paged_backend_def)

text \<open>Iterating a result set whose query has run and whose cache holds \<open>rs\<close> replays the cache.\<close>

lemma iter_replays_cache:
  assumes cons: "consistent_with hs rs body s w"
    and run: "Query_has_run (heap w (query_ref s))"
    and cache: "result_cache s = rs"
  shows "\<exists>s2. SQS_iter fuel cf bk s w = Some (rs, None, s2, w)"
proof -
  from cons have ppr: "post_process_results s hs = Inr rs"
    unfolding consistent_with_def by simp
  have lrs: "length rs = length hs" using ppr by (rule ppr_length)
  have nofill: "Val PNone \<notin> set rs" using ppr by (rule ppr_filled)
  from lrs have "length hs = 0 \<or> rs \<noteq> []" by auto
  with run nofill cache
  have fullb: "Query_has_run (heap w (query_ref s)) \<and>
         (length hs = 0 \<or> (Val PNone \<notin> set (result_cache s) \<and> result_cache s \<noteq> []))"
    by simp
  from cache_is_full_consistent[OF cons, of bk] fullb
  obtain s2 where "SQS_cache_is_full bk s w = (Inr True, s2, w)" "result_cache s2 = result_cache s"
    by auto
  with cache show ?thesis by (simp add: SQS_iter_def)
qed

text \<open>
  C2 (as amended). Against a backend that serves the hits \<open>hs\<close>, with a positive fetch
  window, the traversal of a consistent result set ends normally within \<open>length hs + 1\<close>
  rounds of the generator and yields exactly the records of \<open>hs\<close>, in rank order.
  Iterating the same result set again afterwards yields the same records again: they are
  replayed from the cache, the store is left as it was and no request is sent.
\<close>

theorem full_traversal_yields_all_and_replays:
  assumes sv: "serves bk hs"
    and W: "0 < SIZE_PER_QUERY cf"
    and cons: "consistent_with hs rs body s w"
    and fuel: "length hs < fuel"
  shows "\<exists>s1 w1. SQS_iter fuel cf bk s w = Some (rs, None, s1, w1) \<and>
                 post_process_results s hs = Inr rs \<and> length rs = length hs \<and>
                 (\<forall>fuel'. \<exists>s2. SQS_iter fuel' cf bk s1 w1 = Some (rs, None, s2, w1))"
proof -
  from cons have ppr: "post_process_results s hs = Inr rs"
    and cc: "cache_consistent (result_cache s) rs"
    unfolding consistent_with_def by simp_all
  have lrs: "length rs = length hs" using ppr by (rule ppr_length)
  define fullb where "fullb \<longleftrightarrow> Query_has_run (heap w (query_ref s)) \<and>
         (length hs = 0 \<or> (Val PNone \<notin> set (result_cache s) \<and> result_cache s \<noteq> []))"
  from cache_is_full_consistent[OF cons, of bk]
  obtain s0 where full: "SQS_cache_is_full bk s w = (Inr fullb, s0, w)"
    and cons0: "consistent_with hs rs body s0 w"
    and same0: "result_cache s0 = result_cache s" "query_ref s0 = query_ref s"
    unfolding fullb_def by blast
  have first: "\<exists>s1 w1. SQS_iter fuel cf bk s w = Some (rs, None, s1, w1) \<and>
                 consistent_with hs rs body s1 w1 \<and> Query_has_run (heap w1 (query_ref s1)) \<and>
                 result_cache s1 = rs"
  proof (cases fullb)
    case True
    then have run: "Query_has_run (heap w (query_ref s))" by (simp add: fullb_def)
    have "result_cache s = rs"
    proof (cases "length hs = 0")
      case True
      with lrs have "rs = []" by simp
      moreover from cc this have "result_cache s = []"
        by (auto simp add: cache_consistent_def)
      ultimately show ?thesis by simp
    next
      case False
      with True have "Val PNone \<notin> set (result_cache s)" "result_cache s \<noteq> []"
        by (simp_all add: fullb_def)
      with cc show ?thesis using agree_full by (auto simp add: cache_consistent_def)
    qed
    with full True cons0 same0 run show ?thesis
      by (intro exI[of _ s0] exI[of _ w]) (simp add: SQS_iter_def)
  next
    case False
    have e: "result_cache s0 = [] \<longrightarrow> (0::nat) = 0 \<and> (0::nat) = 0" by simp
    have p: "result_cache s0 \<noteq> [] \<longrightarrow> 0 \<le> first_unfilled (result_cache s0)" by simp
    have f: "length hs - first_unfilled (result_cache s0) < fuel" using fuel by simp
    have o: "[] = take 0 rs" by simp
    from manual_iter_consistent[OF sv W cons0 o e p f]
    obtain s1 w1 where "manual_iter fuel cf bk 0 0 [] s0 w = Some (rs, None, s1, w1)"
      "consistent_with hs rs body s1 w1" "Query_has_run (heap w1 (query_ref s1))"
      "result_cache s1 = rs"
      by blast
    with full False show ?thesis
      by (intro exI[of _ s1] exI[of _ w1]) (simp add: SQS_iter_def)
  qed
  then obtain s1 w1 where it: "SQS_iter fuel cf bk s w = Some (rs, None, s1, w1)"
    and post: "consistent_with hs rs body s1 w1" "Query_has_run (heap w1 (query_ref s1))"
      "result_cache s1 = rs"
    by blast
  have "\<forall>fuel'. \<exists>s2. SQS_iter fuel' cf bk s1 w1 = Some (rs, None, s2, w1)"
    using iter_replays_cache[OF post] by blast
  with it ppr lrs show ?thesis by blast
qed

theorem full_traversal_yields_all_and_replays_witness:
  "\<exists>s1 w1. SQS_iter 6 example_conf (paged_backend (map example_hit [0..<5])) example_sqs
             example_world = Some (map example_record [0..<5], None, s1, w1) \<and>
           post_process_results example_sqs (map example_hit [0..<5])
             = Inr (map example_record [0..<5]) \<and>
           length (map example_record [0..<5]) = length (map example_hit [0..<5]) \<and>
           (\<forall>fuel'. \<exists>s2. SQS_iter fuel' example_conf (paged_backend (map example_hit [0..<5])) s1 w1
                          = Some (map example_record [0..<5], None, s2, w1))"
proof -
  let ?hs = "map example_hit [0..<5]"
  let ?rs = "map example_record [0..<5]"
  let ?body = "PDict [(''query'', PDict [(''match_all'', PDict [])])]"
  have sv: "serves (paged_backend ?hs) ?hs" by (rule paged_backend_serves)
  have W: "0 < SIZE_PER_QUERY example_conf" by (simp add: example_conf_def)
  have c1: "Query_build_query (heap example_world (query_ref example_sqs)) = Inr ?body"
    by code_simp
  have c2: "\<not> mlt_query (heap example_world (query_ref example_sqs))" by code_simp
  have c3: "post_process_results example_sqs ?hs = Inr ?rs" by code_simp
  have c4: "cache_consistent (result_cache example_sqs) ?rs" by code_simp
  have c5: "result_count example_sqs = None" by code_simp
  have c6: "hit_count (heap example_world (query_ref example_sqs)) = None" by code_simp
  have cons: "consistent_with ?hs ?rs ?body example_sqs example_world"
    unfolding consistent_with_def using c1 c2 c3 c4 c5 c6 by blast
  have fuel: "length ?hs < 6" by simp
  show ?thesis
    by (rule full_traversal_yields_all_and_replays[OF sv W cons fuel])
qed

text \<open>
  As the specification states it, the property fails: a second iteration of an exhausted result set, without any
  reset, yields its three records again.
\<close>

theorem full_traversal_yields_all_and_replays_counterexample:
  "fst (the (SQS_iter 4 example_conf (paged_backend (map example_hit [0..<3])) example_sqs
               example_world)) = map example_record [0..<3] \<and>
   fst (the (SQS_iter 4 example_conf (paged_backend (map example_hit [0..<3]))
     (fst (snd (snd (the (SQS_iter 4 example_conf (paged_backend (map example_hit [0..<3]))
                            example_sqs example_world)))))
     (snd (snd (snd (the (SQS_iter 4 example_conf (paged_backend (map example_hit [0..<3]))
                            example_sqs example_world))))))) = map example_record [0..<3] \<and>
   map example_record [0..<3] \<noteq> []"
  by code_simp

end
